theory Spec2Isabelle
  imports Main "HOL-Library.AList"
begin

section \<open>JavaScript values and observable effects\<close>

text \<open>
  The values that flow through the modelled functions. A function value is known by its
  identity only; an array carries its elements, an object literal its properties.
\<close>

datatype jsval =
    JUndefined
  | JNull
  | JBool bool
  | JNum int
  | JStr string
  | JFun nat
  | JArr "jsval list"
  | JObject "(string \<times> jsval) list"

fun typeof :: "jsval \<Rightarrow> string" where
  "typeof JUndefined = ''undefined''"
| "typeof JNull = ''object''"
| "typeof (JBool b) = ''boolean''"
| "typeof (JNum n) = ''number''"
| "typeof (JStr s) = ''string''"
| "typeof (JFun f) = ''function''"
| "typeof (JArr xs) = ''object''"
| "typeof (JObject ps) = ''object''"

fun truthy :: "jsval \<Rightarrow> bool" where
  "truthy JUndefined = False"
| "truthy JNull = False"
| "truthy (JBool b) = b"
| "truthy (JNum n) = (n \<noteq> 0)"
| "truthy (JStr s) = (s \<noteq> [])"
| "truthy (JFun f) = True"
| "truthy (JArr xs) = True"
| "truthy (JObject ps) = True"

text \<open>A number that went through \<open>parseInt\<close>: an integer or \<open>NaN\<close>.\<close>

datatype jsnum = NaN | Num int

fun isNaN :: "jsnum \<Rightarrow> bool" where
  "isNaN NaN = True"
| "isNaN (Num n) = False"

text \<open>
  The options object handed to \<open>new Editor.Window\<close> and on to \<open>new BrowserWindow\<close>:
  \<open>None\<close> is a property that is not set.
\<close>

record options =
  o_windowType :: "string option"
  o_save :: "bool option"
  o_resizable :: "bool option"
  o_alwaysOnTop :: "bool option"
  o_useContentSize :: "bool option"
  o_x :: "jsnum option"
  o_y :: "jsnum option"
  o_width :: "jsnum option"
  o_height :: "jsnum option"
  o_minWidth :: "jsnum option"
  o_minHeight :: "jsnum option"
  o_maxWidth :: "jsnum option"
  o_maxHeight :: "jsnum option"

text \<open>
  A layout profile file, named \<open>layout.\<close> followed by the panel id: the four persisted
  numbers, \<open>None\<close> where the file does not have the property.
\<close>

record profile =
  p_x :: "int option"
  p_y :: "int option"
  p_width :: "int option"
  p_height :: "int option"

text \<open>
  Everything the code does to the outside world is an entry of a trace, in program
  order. Entries about a window carry the address of the \<open>EditorWindow\<close> object. The
  call of a reply callback is recorded before the callback runs, with the window and the
  session it was stored under, the function and the arguments.
\<close>

datatype effect =
    EditorError string
  | EditorWarn string
  | EditorQuit
  | NewBrowserWindow nat options
  | WebContentsSend nat string "jsval list"
  | CallReply nat nat jsval "jsval list"
  | SendToPanel string string "jsval list"
  | NativeShow nat
  | NativeFocus nat
  | NativeHide nat
  | NativeClose nat
  | NativeSetAlwaysOnTop nat bool
  | NativeSetContentSize nat jsnum jsnum
  | NativeSetMenuBarVisibility nat bool
  | NativeLoadURL nat string "jsval option"
  | PreventDefault nat

section \<open>State\<close>

text \<open>
  What the code reads back from a \<open>BrowserWindow\<close>: whether \<open>webContents\<close> is there,
  its content size, its position, and the rectangle that \<open>getBounds\<close> answers
  (\<open>x\<close>, \<open>y\<close>, \<open>width\<close>, \<open>height\<close>).
\<close>

record native =
  webContents :: bool
  contentSize :: "int \<times> int"
  position :: "int \<times> int"
  bounds :: "int \<times> int \<times> int \<times> int"

text \<open>
  An entry of \<open>_windowLayouts\<close>, and of the \<open>windows\<close> property of the profile
  \<open>layout.windows\<close>: the bounds that were committed and the layout, \<open>None\<close> where the
  object does not have the property.
\<close>

record winInfo =
  wi_x :: "int option"
  wi_y :: "int option"
  wi_width :: "int option"
  wi_height :: "int option"
  wi_layout :: "jsval option"

text \<open>
  The fields of an \<open>EditorWindow\<close>. \<open>nativeWin = None\<close> is the \<open>null\<close> that
  \<open>dispose\<close> leaves. \<open>replyCallbacks\<close> is the object \<open>_replyCallbacks\<close>: session id and
  stored value, in insertion order (the one loop over its keys sorts them, as
  \<open>for ... in\<close> does with keys that are integers). Session ids are JavaScript numbers that
  count up from 0 by one; they stay exact integers up to \<open>2^53\<close>, which no window
  reaches, and are modelled as \<open>nat\<close>.
\<close>

record window =
  name :: string
  windowType :: string
  hideWhenBlur :: bool
  save :: bool
  loaded :: bool
  nextSessionId :: nat
  replyCallbacks :: "(nat \<times> jsval) list"
  nativeWin :: "native option"

text \<open>The panel manifest fragment that \<open>Editor.Package.panelInfo\<close> answers, its sizes
  after \<open>parseInt\<close>.\<close>

record panelInfo =
  pi_type :: "string option"
  pi_frame :: "string option"
  pi_width :: jsnum
  pi_height :: jsnum
  pi_min_width :: jsnum
  pi_min_height :: jsnum
  pi_max_width :: jsnum
  pi_max_height :: jsnum

text \<open>
  The process-wide state: the objects (\<open>heap\<close>, by address, \<open>nextObj\<close> the next free
  one), \<open>_windows\<close>, \<open>Editor.mainWindow\<close>, \<open>_panel2windows\<close> and \<open>_panel2argv\<close> (in
  insertion order, the order in which \<open>for ... in\<close> visits keys that are not integers),
  the layout profile files of the panels, \<open>_windowLayouts\<close>, the \<open>windows\<close> property of
  the profile \<open>layout.windows\<close> (a name that is absent from \<open>_windowLayouts\<close> is stored as
  \<open>undefined\<close>, here \<open>None\<close>), \<open>Editor.runMode\<close>, and the collaborators that are not part
  of these files: \<open>Editor.Package.panelInfo\<close>, \<open>Editor.url\<close> (the empty string is its
  "not found"), the \<open>BrowserWindow\<close> constructor, and what \<open>parseInt\<close> answers for a
  number whose decimal string has an exponent (\<open>parseInt_exponent\<close>, see
  \<open>profile_parseInt\<close>). The values of \<open>_panel2windows\<close> are windows; a \<open>panel:dock\<close> from
  a sender that has no window, which would store \<open>null\<close>, is not modelled.
\<close>

record editor =
  heap :: "nat \<Rightarrow> window"
  nextObj :: nat
  windows :: "nat list"
  mainWindow :: "nat option"
  panel2windows :: "(string \<times> nat) list"
  panel2argv :: "(string \<times> jsval) list"
  profiles :: "(string \<times> profile) list"
  windowLayouts :: "(string \<times> winInfo) list"
  layout_windows :: "(string \<times> winInfo option) list"
  runMode :: string
  parseInt_exponent :: "int \<Rightarrow> jsnum"
  package_panelInfo :: "string \<Rightarrow> panelInfo option"
  editor_url :: "string \<Rightarrow> string"
  new_BrowserWindow :: "options \<Rightarrow> native"
  trace :: "effect list"

text \<open>
  A call either returns or throws (the \<open>TypeError\<close> of reading a property of \<open>null\<close>);
  what it did to the state before throwing stays done.
\<close>

datatype 'a outcome = Return 'a | Throw

type_synonym 'a js = "editor \<Rightarrow> 'a outcome \<times> editor"

definition andThen :: "'a js \<Rightarrow> ('a \<Rightarrow> 'b js) \<Rightarrow> 'b js" where
  "andThen m f st = (case m st of (Throw, st') \<Rightarrow> (Throw, st') | (Return a, st') \<Rightarrow> f a st')"

definition emit :: "effect list \<Rightarrow> editor \<Rightarrow> editor" where
  "emit es st = st\<lparr>trace := trace st @ es\<rparr>"

definition set_window :: "nat \<Rightarrow> window \<Rightarrow> editor \<Rightarrow> editor" where
  "set_window wid w st = st\<lparr>heap := (heap st)(wid := w)\<rparr>"

definition isMainWindow :: "editor \<Rightarrow> nat \<Rightarrow> bool" where
  "isMainWindow st wid = (mainWindow st = Some wid)"

text \<open>
  The reply callbacks are code of the callers: what the function with a given identity
  does when it is called with given arguments is a parameter of everything that calls
  one. It may change the state in any way, also by calling back into the window, and it
  may throw. Calling a value that is not a function throws.
\<close>

type_synonym callbacks = "nat \<Rightarrow> jsval list \<Rightarrow> unit js"

definition call_function :: "callbacks \<Rightarrow> nat \<Rightarrow> nat \<Rightarrow> jsval \<Rightarrow> jsval list \<Rightarrow> unit js" where
  "call_function B wid sessionId cb args st =
     (case cb of
        JFun f \<Rightarrow> B f args (emit [CallReply wid sessionId cb args] st)
      | _ \<Rightarrow> (Throw, st))"

text \<open>\<open>this._replyCallbacks[sessionId]\<close>: \<open>undefined\<close> when the table has no such key.\<close>

definition replyCallback :: "editor \<Rightarrow> nat \<Rightarrow> nat \<Rightarrow> jsval" where
  "replyCallback st wid sessionId =
     (case map_of (replyCallbacks (heap st wid)) sessionId of None \<Rightarrow> JUndefined | Some v \<Rightarrow> v)"

section \<open>EditorWindow\<close>

text \<open>
  \<open>sendToPage\<close>: reads \<open>this.nativeWin.webContents\<close> (throws on a disposed window),
  sends when it is there, reports an error otherwise.
\<close>

definition sendToPage :: "nat \<Rightarrow> string \<Rightarrow> jsval list \<Rightarrow> unit js" where
  "sendToPage wid channel args st =
     (case nativeWin (heap st wid) of
        None \<Rightarrow> (Throw, st)
      | Some nw \<Rightarrow>
          if webContents nw then (Return (), emit [WebContentsSend wid channel args] st)
          else (Return (),
                emit [EditorError (''Failed to send '' @ [CHR 0x22] @ channel @ [CHR 0x22] @ '' to ''
                        @ name (heap st wid) @ '' because web contents not yet loaded'')] st))"

text \<open>
  \<open>sendRequestToPage (channel, ...args)\<close>: the three argument checks, then the reply
  function is popped, the session id is taken and stored, and the request is sent.
\<close>

definition sendRequestToPage :: "nat \<Rightarrow> jsval \<Rightarrow> jsval list \<Rightarrow> jsval js" where
  "sendRequestToPage wid channel args st =
     (if typeof channel \<noteq> ''string'' then
        (Return JNull, emit [EditorError ''The channel must be string''] st)
      else if args = [] then
        (Return JNull, emit [EditorError ''Invalid arguments, reply function not found!''] st)
      else if typeof (last args) \<noteq> ''function'' then
        (Return JNull, emit [EditorError ''The last argument must be function''] st)
      else
        (let reply = last args;
             w = heap st wid;
             sessionId = nextSessionId w;
             w' = w\<lparr>nextSessionId := sessionId + 1,
                    replyCallbacks := AList.update sessionId reply (replyCallbacks w)\<rparr>
         in andThen
              (sendToPage wid ''editor:sendreq2page''
                 [channel, JNum (int sessionId), JArr (butlast args)])
              (\<lambda>_ s. (Return (JNum (int sessionId)), s))
              (set_window wid w' st)))"

definition cancelRequestToPage :: "nat \<Rightarrow> nat \<Rightarrow> jsval js" where
  "cancelRequestToPage wid sessionId st =
     (let w = heap st wid
      in (Return JUndefined,
          set_window wid (w\<lparr>replyCallbacks := AList.delete sessionId (replyCallbacks w)\<rparr>) st))"

text \<open>
  \<open>_reply (sessionId, args)\<close>: the callback, when a truthy one is stored, is called, and
  when the call has returned the key is deleted from the table as it is then. A call
  that throws leaves the entry in the table.
\<close>

definition EditorWindow_reply :: "callbacks \<Rightarrow> nat \<Rightarrow> nat \<Rightarrow> jsval list \<Rightarrow> jsval js" where
  "EditorWindow_reply B wid sessionId args st =
     (let cb = replyCallback st wid sessionId
      in if truthy cb then
           andThen (call_function B wid sessionId cb args)
             (\<lambda>_ s. (Return JUndefined,
                      set_window wid
                        ((heap s wid)\<lparr>replyCallbacks :=
                            AList.delete sessionId (replyCallbacks (heap s wid))\<rparr>) s))
             st
         else (Return JUndefined, st))"

text \<open>
  The constructor. \<open>_.defaultsDeep\<close> fills the properties that are not set (of those
  modelled: \<open>windowType\<close>, \<open>width\<close>, \<open>height\<close>); the \<open>switch\<close> on the window type
  has no default branch, so any other type leaves the options as they came.
\<close>

definition defaultsDeep :: "options \<Rightarrow> options" where
  "defaultsDeep opts =
     opts\<lparr>o_windowType := (case o_windowType opts of None \<Rightarrow> Some ''dockable'' | Some t \<Rightarrow> Some t),
          o_width := (case o_width opts of None \<Rightarrow> Some (Num 400) | Some n \<Rightarrow> Some n),
          o_height := (case o_height opts of None \<Rightarrow> Some (Num 300) | Some n \<Rightarrow> Some n)\<rparr>"

definition windowType_switch :: "string \<Rightarrow> options \<Rightarrow> options \<times> bool" where
  "windowType_switch wt opts =
     (if wt = ''dockable'' then (opts\<lparr>o_resizable := Some True, o_alwaysOnTop := Some False\<rparr>, False)
      else if wt = ''float'' then (opts\<lparr>o_resizable := Some True, o_alwaysOnTop := Some True\<rparr>, False)
      else if wt = ''fixed-size'' then (opts\<lparr>o_resizable := Some False, o_alwaysOnTop := Some True\<rparr>, False)
      else if wt = ''quick'' then (opts\<lparr>o_resizable := Some True, o_alwaysOnTop := Some True\<rparr>, True)
      else (opts, False))"

definition addWindow :: "nat \<Rightarrow> editor \<Rightarrow> editor" where
  "addWindow wid st = st\<lparr>windows := windows st @ [wid]\<rparr>"

definition EditorWindow_new :: "string \<Rightarrow> options \<Rightarrow> nat js" where
  "EditorWindow_new nm opts0 st =
     (let opts1 = defaultsDeep opts0;
          wt = (case o_windowType opts1 of None \<Rightarrow> ''dockable'' | Some t \<Rightarrow> t);
          sv = (case o_save opts1 of None \<Rightarrow> True | Some b \<Rightarrow> b);
          (opts2, hide) = windowType_switch wt opts1;
          wid = nextObj st;
          w = \<lparr>name = nm, windowType = wt, hideWhenBlur = hide, save = sv, loaded = False,
               nextSessionId = 0, replyCallbacks = [],
               nativeWin = Some (new_BrowserWindow st opts2)\<rparr>;
          st1 = emit [NewBrowserWindow wid opts2] (set_window wid w (st\<lparr>nextObj := wid + 1\<rparr>));
          st2 = (if hide then emit [NativeSetAlwaysOnTop wid True] st1 else st1)
      in (Return wid, addWindow wid st2))"

definition Window_dispose :: "nat \<Rightarrow> editor \<Rightarrow> editor" where
  "Window_dispose wid st = set_window wid ((heap st wid)\<lparr>nativeWin := None\<rparr>) st"

definition native_call :: "nat \<Rightarrow> effect \<Rightarrow> unit js" where
  "native_call wid e st =
     (case nativeWin (heap st wid) of None \<Rightarrow> (Throw, st) | Some nw \<Rightarrow> (Return (), emit [e] st))"

definition Window_show :: "nat \<Rightarrow> unit js" where
  "Window_show wid = native_call wid (NativeShow wid)"

definition Window_focus :: "nat \<Rightarrow> unit js" where
  "Window_focus wid = native_call wid (NativeFocus wid)"

definition Window_close :: "nat \<Rightarrow> unit js" where
  "Window_close wid st =
     native_call wid (NativeClose wid) (set_window wid ((heap st wid)\<lparr>loaded := False\<rparr>) st)"

text \<open>
  \<open>load (editorUrl, argv)\<close>. The URL that is loaded is the resolved one with the
  encoded \<open>argv\<close> as its hash when \<open>argv\<close> is truthy; the trace keeps the two apart.
\<close>

definition Window_load :: "nat \<Rightarrow> string \<Rightarrow> jsval \<Rightarrow> unit js" where
  "Window_load wid editorUrl argv st =
     (let resultUrl = editor_url st editorUrl
      in if resultUrl = [] then
           (Return (),
            emit [EditorError (''Failed to load page '' @ editorUrl @ '' for window '' @ [CHR 0x22]
                    @ name (heap st wid) @ [CHR 0x22])] st)
         else
           native_call wid (NativeLoadURL wid resultUrl (if truthy argv then Some argv else None))
             (set_window wid ((heap st wid)\<lparr>loaded := False\<rparr>) st))"

definition removeWindow :: "nat \<Rightarrow> editor \<Rightarrow> editor" where
  "removeWindow wid st =
     (if wid \<notin> set (windows st) then
        emit [EditorWarn (''Can not find window '' @ name (heap st wid))] st
      else st\<lparr>windows := remove1 wid (windows st)\<rparr>)"

text \<open>
  \<open>commitWindowState (layoutInfo)\<close>: nothing for a window that is not saved; otherwise
  the bounds are read from the native window (which throws on a disposed window), a
  width or height of 0 is reported and replaced by 800 or 600, the bounds are assigned
  over the window's entry of \<open>_windowLayouts\<close>, and a truthy \<open>layoutInfo\<close> becomes its
  layout.
\<close>

definition empty_winInfo :: winInfo where
  "empty_winInfo = \<lparr>wi_x = None, wi_y = None, wi_width = None, wi_height = None, wi_layout = None\<rparr>"

definition Window_commitWindowState :: "nat \<Rightarrow> jsval \<Rightarrow> unit js" where
  "Window_commitWindowState wid layoutInfo st =
     (let w = heap st wid
      in if \<not> save w then (Return (), st)
         else
           (case nativeWin w of
              None \<Rightarrow> (Throw, st)
            | Some nw \<Rightarrow>
                (case bounds nw of
                   (x, y, width, height) \<Rightarrow>
                     (let st1 = (if width = 0 then
                                   emit [EditorWarn ''Failed to commit window state. Invalid window width: 0''] st
                                 else st);
                          width1 = (if width = 0 then 800 else width);
                          st2 = (if height = 0 then
                                   emit [EditorWarn ''Failed to commit window state. Invalid window height 0''] st1
                                 else st1);
                          height1 = (if height = 0 then 600 else height);
                          winInfo0 = (case map_of (windowLayouts st2) (name w) of
                                        None \<Rightarrow> empty_winInfo | Some i \<Rightarrow> i);
                          winInfo1 = winInfo0\<lparr>wi_x := Some x, wi_y := Some y,
                                       wi_width := Some width1, wi_height := Some height1\<rparr>;
                          winInfo2 = (if truthy layoutInfo then winInfo1\<lparr>wi_layout := Some layoutInfo\<rparr>
                                      else winInfo1)
                      in (Return (),
                          st2\<lparr>windowLayouts := AList.update (name w) winInfo2 (windowLayouts st2)\<rparr>)))))"

text \<open>\<open>commitWindowStates ()\<close>: every window of \<open>_windows\<close>, in order, with no layout.\<close>

fun commitWindowStates_loop :: "nat list \<Rightarrow> unit js" where
  "commitWindowStates_loop [] st = (Return (), st)"
| "commitWindowStates_loop (editorWin # rest) st =
     (case Window_commitWindowState editorWin JUndefined st of
        (Throw, st') \<Rightarrow> (Throw, st')
      | (Return _, st') \<Rightarrow> commitWindowStates_loop rest st')"

definition commitWindowStates :: "unit js" where
  "commitWindowStates st = commitWindowStates_loop (windows st) st"

text \<open>
  \<open>saveWindowStates ()\<close>: nothing in the test run mode or without a main window;
  otherwise the \<open>windows\<close> property of the profile \<open>layout.windows\<close> is built anew from
  \<open>_windowLayouts\<close>, one entry for each window of \<open>_windows\<close>, and the profile is saved.
\<close>

definition saveWindowStates :: "editor \<Rightarrow> editor" where
  "saveWindowStates st =
     (if runMode st = ''test'' then st
      else if mainWindow st = None then st
      else st\<lparr>layout_windows :=
                fold (\<lambda>editorWin ws.
                        AList.update (name (heap st editorWin))
                          (map_of (windowLayouts st) (name (heap st editorWin))) ws)
                  (windows st) []\<rparr>)"

section \<open>Editor.Panel\<close>

text \<open>
  \<open>String.prototype.split ('.')\<close>: the pieces between the dots, one more than there are
  dots.
\<close>

fun split_dot :: "string \<Rightarrow> string list" where
  "split_dot [] = [[]]"
| "split_dot (c # cs) =
     (if c = CHR ''.'' then [] # split_dot cs
      else (case split_dot cs of [] \<Rightarrow> [[c]] | p # ps \<Rightarrow> (c # p) # ps))"

text \<open>
  A panel id as \<open>close\<close>, \<open>_undock\<close> and \<open>_saveLayout\<close> receive it: the string the callers
  outside pass, or the array that \<open>findPanels\<close> collects. Used as a property key or
  inside a template string, an array of strings is its elements joined by commas.
\<close>

datatype panelref = PanelStr string | PanelArr "string list"

fun join_comma :: "string list \<Rightarrow> string" where
  "join_comma [] = []"
| "join_comma [x] = x"
| "join_comma (x # y # ys) = x @ '','' @ join_comma (y # ys)"

fun ToString :: "panelref \<Rightarrow> string" where
  "ToString (PanelStr s) = s"
| "ToString (PanelArr xs) = join_comma xs"

fun panelref_val :: "panelref \<Rightarrow> jsval" where
  "panelref_val (PanelStr s) = JStr s"
| "panelref_val (PanelArr xs) = JArr (map JStr xs)"

definition Panel_dock :: "string \<Rightarrow> nat \<Rightarrow> editor \<Rightarrow> editor" where
  "Panel_dock panelID win st = st\<lparr>panel2windows := AList.update panelID win (panel2windows st)\<rparr>"

definition Panel_undock :: "panelref \<Rightarrow> nat option js" where
  "Panel_undock panelID st =
     (case map_of (panel2windows st) (ToString panelID) of
        None \<Rightarrow> (Return None, st)
      | Some editorWin \<Rightarrow>
          andThen (sendToPage editorWin ''panel:undock'' [panelref_val panelID])
            (\<lambda>_ s. (Return (Some editorWin),
                     s\<lparr>panel2windows := AList.delete (ToString panelID) (panel2windows s)\<rparr>))
            st)"

text \<open>
  Modelled from the spec: \<open>Editor.loadProfile\<close> is not in these files; the spec gives it
  as \<open>loadProfile(name, scope, defaults) -> profile object with .save()\<close>. It answers
  the stored profile of that name, an empty one when there is none; \<open>save\<close> writes the
  object back under the name.
\<close>

definition loadProfile :: "editor \<Rightarrow> string \<Rightarrow> profile" where
  "loadProfile st nm =
     (case map_of (profiles st) nm of
        None \<Rightarrow> \<lparr>p_x = None, p_y = None, p_width = None, p_height = None\<rparr>
      | Some p \<Rightarrow> p)"

definition profile_save :: "string \<Rightarrow> profile \<Rightarrow> editor \<Rightarrow> editor" where
  "profile_save nm p st = st\<lparr>profiles := AList.update nm p (profiles st)\<rparr>"

definition Panel_saveLayout :: "nat \<Rightarrow> panelref \<Rightarrow> unit js" where
  "Panel_saveLayout editorWin panelID st =
     (if \<not> isMainWindow st editorWin then
        (let nm = ''layout.'' @ ToString panelID;
             panelProfile = loadProfile st nm
         in case nativeWin (heap st editorWin) of
              None \<Rightarrow> (Throw, st)
            | Some nw \<Rightarrow>
                (let winSize = contentSize nw;
                     winPos = position nw
                 in (Return (),
                     profile_save nm
                       (panelProfile\<lparr>p_x := Some (fst winPos), p_y := Some (snd winPos),
                                      p_width := Some (fst winSize), p_height := Some (snd winSize)\<rparr>)
                       st)))
      else (Return (), st))"

definition Panel_findWindow :: "editor \<Rightarrow> string \<Rightarrow> nat option" where
  "Panel_findWindow st panelID = map_of (panel2windows st) panelID"

fun findWindows_loop :: "(string \<times> nat) list \<Rightarrow> string \<Rightarrow> nat list \<Rightarrow> nat list" where
  "findWindows_loop [] packageName wins = wins"
| "findWindows_loop ((p, editorWin) # rest) packageName wins =
     (let pair = split_dot p
      in if length pair \<noteq> 2 then findWindows_loop rest packageName wins
         else if pair ! 1 = packageName then
           (if editorWin \<notin> set wins then findWindows_loop rest packageName (wins @ [editorWin])
            else findWindows_loop rest packageName wins)
         else findWindows_loop rest packageName wins)"

definition Panel_findWindows :: "editor \<Rightarrow> string \<Rightarrow> nat list" where
  "Panel_findWindows st packageName = findWindows_loop (panel2windows st) packageName []"

fun findPanels_loop :: "(string \<times> nat) list \<Rightarrow> string \<Rightarrow> string list list \<Rightarrow> string list list" where
  "findPanels_loop [] packageName panelIDs = panelIDs"
| "findPanels_loop ((p, editorWin) # rest) packageName panelIDs =
     (let pair = split_dot p
      in if length pair \<noteq> 2 then findPanels_loop rest packageName panelIDs
         else if pair ! 0 = packageName then findPanels_loop rest packageName (panelIDs @ [pair])
         else findPanels_loop rest packageName panelIDs)"

definition Panel_findPanels :: "editor \<Rightarrow> string \<Rightarrow> string list list" where
  "Panel_findPanels st packageName = findPanels_loop (panel2windows st) packageName []"

text \<open>\<open>close (panelID)\<close>: undock, save the layout, close the window when it is left empty
  and is not the main window.\<close>

definition Panel_close :: "panelref \<Rightarrow> unit js" where
  "Panel_close panelID =
     andThen (Panel_undock panelID)
       (\<lambda>r. case r of
               None \<Rightarrow> (\<lambda>st. (Return (), st))
             | Some editorWin \<Rightarrow>
                 andThen (Panel_saveLayout editorWin panelID)
                   (\<lambda>_ st.
                      (let found = list_ex (\<lambda>(i, w). editorWin = w) (panel2windows st)
                       in if \<not> found \<and> \<not> isMainWindow st editorWin then Window_close editorWin st
                          else (Return (), st))))"

fun closeAll_loop :: "string list list \<Rightarrow> unit js" where
  "closeAll_loop [] st = (Return (), st)"
| "closeAll_loop (p # ps) st =
     (case Panel_close (PanelArr p) st of
        (Throw, st') \<Rightarrow> (Throw, st')
      | (Return _, st') \<Rightarrow> closeAll_loop ps st')"

definition Panel_closeAll :: "string \<Rightarrow> unit js" where
  "Panel_closeAll packageName st = closeAll_loop (Panel_findPanels st packageName) st"

fun onWindowClose_loop :: "(string \<times> nat) list \<Rightarrow> nat \<Rightarrow> unit js" where
  "onWindowClose_loop [] editorWin st = (Return (), st)"
| "onWindowClose_loop ((i, win) # rest) editorWin st =
     (if win = editorWin then
        (case Panel_saveLayout editorWin (PanelStr i) st of
           (Throw, st') \<Rightarrow> (Throw, st')
         | (Return _, st') \<Rightarrow> onWindowClose_loop rest editorWin st')
      else onWindowClose_loop rest editorWin st)"

definition Panel_onWindowClose :: "nat \<Rightarrow> unit js" where
  "Panel_onWindowClose editorWin st = onWindowClose_loop (panel2windows st) editorWin st"

definition Panel_onWindowClosed :: "nat \<Rightarrow> editor \<Rightarrow> editor" where
  "Panel_onWindowClosed editorWin st =
     st\<lparr>panel2windows := filter (\<lambda>(i, win). win \<noteq> editorWin) (panel2windows st)\<rparr>"

text \<open>
  \<open>open (panelID, argv)\<close>. \<open>now\<close> is \<open>new Date().getTime()\<close> in decimal, which names
  the new window. A profile value is applied when it is truthy, that is set and not 0.
\<close>

definition profile_truthy :: "int option \<Rightarrow> bool" where
  "profile_truthy v = (case v of None \<Rightarrow> False | Some n \<Rightarrow> n \<noteq> 0)"

text \<open>
  \<open>parseInt\<close> of a profile value, which is an integer: \<open>parseInt\<close> reads the number's
  decimal string, which is the number itself as long as its magnitude is below
  \<open>10^21\<close>; from there on the string has an exponent (\<open>1e+21\<close>) and \<open>parseInt\<close> reads its
  leading digits only. What those are depends on the rounding of the number to a double,
  which is not modelled: the answer is taken from \<open>big\<close>.
\<close>

definition profile_parseInt :: "(int \<Rightarrow> jsnum) \<Rightarrow> int option \<Rightarrow> jsnum" where
  "profile_parseInt big v =
     (case v of
        None \<Rightarrow> NaN
      | Some n \<Rightarrow> if \<bar>n\<bar> < 10 ^ 21 then Num n else big n)"

definition open_windowOptions :: "(int \<Rightarrow> jsnum) \<Rightarrow> panelInfo \<Rightarrow> profile \<Rightarrow> options" where
  "open_windowOptions big info layoutProfile =
     (let width0 = pi_width info;
          height0 = pi_height info;
          x = (if profile_truthy (p_x layoutProfile) then Some (profile_parseInt big (p_x layoutProfile)) else None);
          y = (if profile_truthy (p_y layoutProfile) then Some (profile_parseInt big (p_y layoutProfile)) else None);
          width1 = (if profile_truthy (p_width layoutProfile) then profile_parseInt big (p_width layoutProfile) else width0);
          height1 = (if profile_truthy (p_height layoutProfile) then profile_parseInt big (p_height layoutProfile) else height0);
          wt = (case pi_type info of None \<Rightarrow> ''dockable'' | Some t \<Rightarrow> if t = [] then ''dockable'' else t);
          width2 = (if pi_type info = Some ''fixed-size'' then pi_width info else width1);
          height2 = (if pi_type info = Some ''fixed-size'' then pi_height info else height1);
          width3 = (if isNaN width2 then Num 400 else width2);
          height3 = (if isNaN height2 then Num 400 else height2);
          minWidth = (if isNaN (pi_min_width info) then Num 200 else pi_min_width info);
          minHeight = (if isNaN (pi_min_height info) then Num 200 else pi_min_height info)
      in \<lparr>o_windowType = Some wt, o_save = None, o_resizable = None, o_alwaysOnTop = None,
          o_useContentSize = Some True, o_x = x, o_y = y,
          o_width = Some width3, o_height = Some height3,
          o_minWidth = Some minWidth, o_minHeight = Some minHeight,
          o_maxWidth = Some (pi_max_width info), o_maxHeight = Some (pi_max_height info)\<rparr>)"

definition templateUrl :: string where
  "templateUrl = ''editor-framework://static/window.html''"

definition open_new_window :: "string \<Rightarrow> string \<Rightarrow> jsval \<Rightarrow> panelInfo \<Rightarrow> unit js" where
  "open_new_window now panelID argv info st =
     (let windowName = ''editor-window-'' @ now;
          windowOptions = open_windowOptions (parseInt_exponent st) info
                            (loadProfile st (''layout.'' @ panelID));
          width = (case o_width windowOptions of None \<Rightarrow> NaN | Some n \<Rightarrow> n);
          height = (case o_height windowOptions of None \<Rightarrow> NaN | Some n \<Rightarrow> n)
      in andThen (EditorWindow_new windowName windowOptions)
           (\<lambda>editorWin.
              andThen (\<lambda>s. (Return (), Panel_dock panelID editorWin s))
             (\<lambda>_. andThen (native_call editorWin (NativeSetContentSize editorWin width height))
             (\<lambda>_. andThen (native_call editorWin (NativeSetMenuBarVisibility editorWin False))
             (\<lambda>_. andThen
                     (if pi_type info = Some ''simple'' then
                        Window_load editorWin
                          (''packages://'' @ hd (split_dot panelID) @ ''/''
                             @ (case pi_frame info of None \<Rightarrow> ''undefined'' | Some f \<Rightarrow> f))
                          argv
                      else
                        Window_load editorWin templateUrl (JObject [(''panelID'', JStr panelID)]))
             (\<lambda>_. Window_focus editorWin)))))
           st)"

definition Panel_open :: "string \<Rightarrow> string \<Rightarrow> jsval \<Rightarrow> unit js" where
  "Panel_open now panelID argv st =
     (case package_panelInfo st panelID of
        None \<Rightarrow>
          (Return (),
           emit [EditorError (''Failed to open panel '' @ panelID @ '', panel info not found.'')] st)
      | Some info \<Rightarrow>
          (let st1 = st\<lparr>panel2argv := AList.update panelID argv (panel2argv st)\<rparr>
           in case Panel_findWindow st1 panelID of
                Some editorWin \<Rightarrow>
                  andThen (\<lambda>s. (Return (), emit [SendToPanel panelID ''panel:run'' [argv]] s))
                    (\<lambda>_. andThen (Window_show editorWin) (\<lambda>_. Window_focus editorWin))
                    st1
              | None \<Rightarrow> open_new_window now panelID argv info st1))"

section \<open>The native window's events\<close>

text \<open>
  The handler of \<open>close\<close>: a quick window prevents the default and hides; then the
  layouts of the window's panels are saved, the state of every window is committed and
  the window states are saved. It answers whether the default was prevented.
\<close>

definition on_close :: "nat \<Rightarrow> bool js" where
  "on_close wid st =
     (let quick = (windowType (heap st wid) = ''quick'')
      in andThen
           (if quick then
              andThen (\<lambda>s. (Return (), emit [PreventDefault wid] s))
                (\<lambda>_. native_call wid (NativeHide wid))
            else (\<lambda>s. (Return (), s)))
           (\<lambda>_. andThen (Panel_onWindowClose wid)
           (\<lambda>_. andThen commitWindowStates
           (\<lambda>_ s. (Return quick, saveWindowStates s))))
           st)"

text \<open>
  The handler of \<open>closed\<close>: the panels of the window leave the mapping; the keys of the
  callback table are visited (\<open>for ... in\<close> visits the keys the object has when the loop
  starts, integers in ascending order), and every one that holds a truthy value when its
  turn comes is called with no arguments; a call that throws ends the handler there.
  After the loop (\<open>closed_tail\<close>) the table is emptied, the window leaves \<open>_windows\<close>
  (the main window also ends the application) and is disposed.
\<close>

fun closed_loop :: "callbacks \<Rightarrow> nat \<Rightarrow> nat list \<Rightarrow> unit js" where
  "closed_loop B wid [] st = (Return (), st)"
| "closed_loop B wid (sessionId # rest) st =
     (let cb = replyCallback st wid sessionId
      in if truthy cb then
           (case call_function B wid sessionId cb [] st of
              (Throw, st') \<Rightarrow> (Throw, st')
            | (Return _, st') \<Rightarrow> closed_loop B wid rest st')
         else closed_loop B wid rest st)"

definition closed_tail :: "nat \<Rightarrow> editor \<Rightarrow> editor" where
  "closed_tail wid st2 =
     (let st3 = set_window wid ((heap st2 wid)\<lparr>replyCallbacks := []\<rparr>) st2;
          st4 = (if isMainWindow st3 wid then
                   emit [EditorQuit] ((removeWindow wid st3)\<lparr>mainWindow := None\<rparr>)
                 else removeWindow wid st3)
      in Window_dispose wid st4)"

definition on_closed :: "callbacks \<Rightarrow> nat \<Rightarrow> unit js" where
  "on_closed B wid st =
     (let st1 = Panel_onWindowClosed wid st
      in andThen (closed_loop B wid (sort (map fst (replyCallbacks (heap st1 wid)))))
           (\<lambda>_ st2. (Return (), closed_tail wid st2))
           st1)"

text \<open>The trace entries that are warnings.\<close>

fun is_warn :: "effect \<Rightarrow> bool" where
  "is_warn (EditorWarn m) = True"
| "is_warn e = False"

text \<open>
  What Electron does with a request to close a native window: it emits \<open>close\<close>, and
  unless a handler prevented the default the window is destroyed and \<open>closed\<close> is
  emitted. What happens to the window when the handler of \<open>close\<close> throws is not
  modelled: the request ends with the exception.
\<close>

definition native_close_request :: "callbacks \<Rightarrow> nat \<Rightarrow> unit js" where
  "native_close_request B wid =
     andThen (on_close wid)
       (\<lambda>prevented. if prevented then (\<lambda>s. (Return (), s)) else on_closed B wid)"

section \<open>Runs of the request and reply protocol\<close>

text \<open>
  The constructor, \<open>sendRequestToPage\<close>, \<open>cancelRequestToPage\<close>, \<open>_reply\<close> and the handler
  of \<open>closed\<close> are the only code of these files that writes \<open>_nextSessionId\<close> or
  \<open>_replyCallbacks\<close>. A run is any sequence of them, on any windows, with the callbacks
  behaving as \<open>B\<close> says; a call on an address that holds no window yet cannot be made and
  is skipped. A run goes on after a call that threw, from the state the call left.
\<close>

datatype ipc_op =
    OpNew string options
  | OpSendRequest nat jsval "jsval list"
  | OpCancel nat nat
  | OpReply nat nat "jsval list"
  | OpClosed nat

fun ipc_step :: "callbacks \<Rightarrow> ipc_op \<Rightarrow> editor \<Rightarrow> editor" where
  "ipc_step B (OpNew nm opts) st = snd (EditorWindow_new nm opts st)"
| "ipc_step B (OpSendRequest wid channel args) st =
     (if wid < nextObj st then snd (sendRequestToPage wid channel args st) else st)"
| "ipc_step B (OpCancel wid sessionId) st =
     (if wid < nextObj st then snd (cancelRequestToPage wid sessionId st) else st)"
| "ipc_step B (OpReply wid sessionId args) st =
     (if wid < nextObj st then snd (EditorWindow_reply B wid sessionId args st) else st)"
| "ipc_step B (OpClosed wid) st =
     (if wid < nextObj st then snd (on_closed B wid st) else st)"

fun ipc_run :: "callbacks \<Rightarrow> ipc_op list \<Rightarrow> editor \<Rightarrow> editor" where
  "ipc_run B [] st = st"
| "ipc_run B (x # xs) st = ipc_run B xs (ipc_step B x st)"

text \<open>The session ids that \<open>sendRequestToPage\<close> returns for one window along a run, in order.\<close>

fun returned_id :: "jsval outcome \<Rightarrow> nat list" where
  "returned_id (Return (JNum n)) = [nat n]"
| "returned_id r = []"

fun step_allocated :: "nat \<Rightarrow> ipc_op \<Rightarrow> editor \<Rightarrow> nat list" where
  "step_allocated wid (OpSendRequest w channel args) st =
     (if w = wid \<and> w < nextObj st then returned_id (fst (sendRequestToPage w channel args st)) else [])"
| "step_allocated wid x st = []"

fun ipc_allocated :: "callbacks \<Rightarrow> nat \<Rightarrow> ipc_op list \<Rightarrow> editor \<Rightarrow> nat list" where
  "ipc_allocated B wid [] st = []"
| "ipc_allocated B wid (x # xs) st =
     step_allocated wid x st @ ipc_allocated B wid xs (ipc_step B x st)"

text \<open>
  The sessions whose callback a trace calls, as window and session id, in order; the
  session ids pending in a window; and the invariant of the bookkeeping: in every window
  the pending ids are distinct, below the counter, and hold functions; no session was
  called twice; and a session that was called belongs to a window, is below its counter
  and is no longer pending.
\<close>

fun called_session :: "effect \<Rightarrow> (nat \<times> nat) list" where
  "called_session (CallReply wid sessionId cb args) = [(wid, sessionId)]"
| "called_session e = []"

definition called_sessions :: "effect list \<Rightarrow> (nat \<times> nat) list" where
  "called_sessions es = concat (map called_session es)"

text \<open>The calls of reply callbacks in a trace.\<close>

fun is_call :: "effect \<Rightarrow> bool" where
  "is_call (CallReply wid sessionId cb args) = True"
| "is_call e = False"

definition reply_calls :: "effect list \<Rightarrow> effect list" where
  "reply_calls es = filter is_call es"

definition pending :: "editor \<Rightarrow> nat \<Rightarrow> nat list" where
  "pending st wid = map fst (replyCallbacks (heap st wid))"

definition sessions_wf :: "editor \<Rightarrow> bool" where
  "sessions_wf st \<longleftrightarrow>
     list_all (\<lambda>wid. distinct (pending st wid)
                 \<and> list_all (\<lambda>(k, v). k < nextSessionId (heap st wid) \<and> typeof v = ''function'')
                      (replyCallbacks (heap st wid)))
       [0..<nextObj st]
     \<and> distinct (called_sessions (trace st))
     \<and> list_all (\<lambda>(wid, k). wid < nextObj st \<and> k < nextSessionId (heap st wid)
                    \<and> k \<notin> set (pending st wid))
         (called_sessions (trace st))"

section \<open>Package loading\<close>

text \<open>
  Modelled from the spec: \<open>Editor.Package.load\<close> is not in these files, only its tests
  are. The spec (4.1) gives it as: fail with \<open>InvalidManifest\<close> when the descriptor cannot
  be parsed, with \<open>MissingHost\<close> when a declared host is absent, with \<open>EntryLoadError\<close> when
  the main script throws; on success, load all declared dependencies before the package
  itself, siblings in declaration order, the dependent only after all its dependencies
  have loaded and raised \<open>package:loaded\<close>; loading a package that is loaded already is a
  no-op without error; every successful load broadcasts \<open>package:loaded\<close> with the
  package's name; dependencies loaded by an attempt that fails stay loaded. Cycles are
  left undefined there: the traversal has fuel, one unit for each level of dependencies,
  and running out of it is the value \<open>None\<close>; on a registry without cycles a load
  returns as soon as the fuel is above the rank of the package. Packages are known by
  name; a name without a descriptor in the registry is a descriptor that cannot be
  parsed.
\<close>

datatype load_error = InvalidManifest | MissingHost | EntryLoadError

record manifest =
  dependencies :: "string list"
  host_present :: bool
  main_runs :: bool

record packages =
  loaded_packages :: "string list"
  notified :: "string list"

fun load :: "nat \<Rightarrow> (string \<times> manifest) list \<Rightarrow> string \<Rightarrow> packages
               \<Rightarrow> (load_error option \<times> packages) option"
  and load_dependencies :: "nat \<Rightarrow> (string \<times> manifest) list \<Rightarrow> string list \<Rightarrow> packages
               \<Rightarrow> (load_error option \<times> packages) option" where
  "load 0 reg p st = None"
| "load (Suc n) reg p st =
     (if p \<in> set (loaded_packages st) then Some (None, st)
      else
        (case map_of reg p of
           None \<Rightarrow> Some (Some InvalidManifest, st)
         | Some m \<Rightarrow>
             if \<not> host_present m then Some (Some MissingHost, st)
             else
               (case load_dependencies n reg (dependencies m) st of
                  None \<Rightarrow> None
                | Some (Some e, st') \<Rightarrow> Some (Some e, st')
                | Some (None, st') \<Rightarrow>
                    if \<not> main_runs m then Some (Some EntryLoadError, st')
                    else Some (None, st'\<lparr>loaded_packages := loaded_packages st' @ [p],
                                          notified := notified st' @ [p]\<rparr>))))"
| "load_dependencies n reg [] st = Some (None, st)"
| "load_dependencies n reg (d # ds) st =
     (case load n reg d st of
        None \<Rightarrow> None
      | Some (Some e, st') \<Rightarrow> Some (Some e, st')
      | Some (None, st') \<Rightarrow> load_dependencies n reg ds st')"



text \<open>
  The order that the claim asks of the notifications \<open>ns\<close> of a load, for a package \<open>p\<close>
  that declares the dependencies \<open>ds\<close>: every dependency is notified, and strictly before
  \<open>p\<close>; and the dependencies are notified in the order of their declaration.
\<close>

definition comes_before :: "string list \<Rightarrow> string \<Rightarrow> string \<Rightarrow> bool" where
  "comes_before ns a b \<longleftrightarrow> b \<in> set (drop 1 (dropWhile (\<lambda>x. x \<noteq> a) ns))"

fun in_order :: "string list \<Rightarrow> string list \<Rightarrow> bool" where
  "in_order ns [] = True"
| "in_order ns [d] = True"
| "in_order ns (d # e # ds) = (comes_before ns d e \<and> in_order ns (e # ds))"

definition claimed_order :: "string list \<Rightarrow> string \<Rightarrow> string list \<Rightarrow> bool" where
  "claimed_order ns p ds \<longleftrightarrow> list_all (\<lambda>d. comes_before ns d p) ds \<and> in_order ns ds"


text \<open>
  The fixture of the test \<open>should load dependencies first\<close>: \<open>package-deps\<close> depends on
  \<open>dep-01\<close>, which depends on \<open>dep-02\<close>. And a registry in which a package names two
  dependencies of which the first depends on the second. In both, the rank of a package
  is the length of the longest chain of dependencies below it.
\<close>

definition plain_manifest :: "string list \<Rightarrow> manifest" where
  "plain_manifest ds = \<lparr>dependencies = ds, host_present = True, main_runs = True\<rparr>"


definition shared_registry :: "(string \<times> manifest) list" where
  "shared_registry =
     [(''app'', plain_manifest [''dep-01'', ''dep-02'']),
      (''dep-01'', plain_manifest [''dep-02'']),
      (''dep-02'', plain_manifest [])]"



section \<open>Example states\<close>

text \<open>
  One live window at address 0 that hosts the panel \<open>pkg.panel\<close>; no package is loaded,
  so there is no panel info.
\<close>

definition blank_window :: window where
  "blank_window = \<lparr>name = [], windowType = ''dockable'', hideWhenBlur = False, save = True,
     loaded = False, nextSessionId = 0, replyCallbacks = [], nativeWin = None\<rparr>"

definition example_native :: native where
  "example_native = \<lparr>webContents = True, contentSize = (400, 300), position = (10, 20),
     bounds = (10, 20, 400, 322)\<rparr>"

definition example_editor :: editor where
  "example_editor =
     \<lparr>heap = (\<lambda>a. blank_window)(0 := blank_window\<lparr>name := ''w0'', nativeWin := Some example_native\<rparr>),
      nextObj = 1, windows = [0], mainWindow = None,
      panel2windows = [(''pkg.panel'', 0)], panel2argv = [], profiles = [],
      windowLayouts = [], layout_windows = [], runMode = ''normal'',
      parseInt_exponent = (\<lambda>n. Num 1),
      package_panelInfo = (\<lambda>p. None), editor_url = (\<lambda>u. u),
      new_BrowserWindow = (\<lambda>opts. example_native), trace = []\<rparr>"

definition example_info :: panelInfo where
  "example_info = \<lparr>pi_type = Some ''dockable'', pi_frame = None, pi_width = Num 300,
     pi_height = Num 200, pi_min_width = NaN, pi_min_height = NaN, pi_max_width = NaN,
     pi_max_height = NaN\<rparr>"

definition no_options :: options where
  "no_options = \<lparr>o_windowType = None, o_save = None, o_resizable = None, o_alwaysOnTop = None,
     o_useContentSize = None, o_x = None, o_y = None, o_width = None, o_height = None,
     o_minWidth = None, o_minHeight = None, o_maxWidth = None, o_maxHeight = None\<rparr>"

text \<open>The example state after a quick window was created in it, at address 1.\<close>

definition example_quick_editor :: editor where
  "example_quick_editor =
     snd (EditorWindow_new ''quick-open'' (no_options\<lparr>o_windowType := Some ''quick''\<rparr>) example_editor)"

text \<open>
  Two devices of the proofs. A table is in order below a counter when its keys are
  distinct and below the counter and its values are functions. A state advances to
  another when no window is lost, no counter goes down, and a session id pending later
  was pending before or is not below the earlier counter.
\<close>

definition table_ok :: "(nat \<times> jsval) list \<Rightarrow> nat \<Rightarrow> bool" where
  "table_ok cbs n \<longleftrightarrow>
     distinct (map fst cbs) \<and> (\<forall>(k, v) \<in> set cbs. k < n \<and> typeof v = ''function'')"

definition advances :: "editor \<Rightarrow> editor \<Rightarrow> bool" where
  "advances st st' \<longleftrightarrow>
     nextObj st \<le> nextObj st'
     \<and> (\<forall>w < nextObj st. nextSessionId (heap st w) \<le> nextSessionId (heap st' w)
           \<and> (\<forall>k \<in> set (pending st' w). k \<in> set (pending st w) \<or> nextSessionId (heap st w) \<le> k))"

text \<open>
  What is asked of the callbacks. Callbacks are quiet when every call returns, leaves
  the number of windows and every window's callback table and counter as they are, and
  calls no reply callback itself. Callbacks advance when no call loses a window, lowers
  a counter or brings back a session id that was no longer pending; that is so for every
  callback that reaches the tables only through the operations of a run.
\<close>

definition callbacks_quiet :: "callbacks \<Rightarrow> bool" where
  "callbacks_quiet B \<longleftrightarrow>
     (\<forall>f args st.
        fst (B f args st) = Return ()
        \<and> nextObj (snd (B f args st)) = nextObj st
        \<and> (\<forall>w. replyCallbacks (heap (snd (B f args st)) w) = replyCallbacks (heap st w)
               \<and> nextSessionId (heap (snd (B f args st)) w) = nextSessionId (heap st w))
        \<and> (\<exists>rest. trace (snd (B f args st)) = trace st @ rest \<and> reply_calls rest = []))"

definition callbacks_advance :: "callbacks \<Rightarrow> bool" where
  "callbacks_advance B \<longleftrightarrow> (\<forall>f args st. advances st (snd (B f args st)))"

text \<open>
  Three behaviours: callbacks that return at once, callbacks that throw, and callbacks
  that pass the reply on to \<open>_reply\<close> of window 0 for session 0 once more (where the inner
  call returns at once).
\<close>

definition returning_callbacks :: callbacks where
  "returning_callbacks f args st = (Return (), st)"

definition throwing_callbacks :: callbacks where
  "throwing_callbacks f args st = (Throw, st)"


text \<open>
  A run on the example window: two requests, a reply to the first, the same reply again,
  and the window closed. The state with both requests pending is the run's first half;
  the state with the window closed and disposed is the end of the whole run.
\<close>

definition example_requests :: "ipc_op list" where
  "example_requests =
     [OpSendRequest 0 (JStr ''query'') [JNum 1, JFun 7], OpSendRequest 0 (JStr ''query'') [JFun 8]]"

definition example_replies :: "ipc_op list" where
  "example_replies = [OpReply 0 0 [JStr ''ok''], OpReply 0 0 [JStr ''again''], OpClosed 0]"

definition example_pending_editor :: editor where
  "example_pending_editor = ipc_run returning_callbacks example_requests example_editor"

definition example_closed_editor :: editor where
  "example_closed_editor = ipc_run returning_callbacks example_replies example_pending_editor"

section \<open>Basic facts\<close>

lemma emit_fields [simp]:
  "heap (emit es st) = heap st" "nextObj (emit es st) = nextObj st"
  "windows (emit es st) = windows st" "mainWindow (emit es st) = mainWindow st"
  "panel2windows (emit es st) = panel2windows st" "panel2argv (emit es st) = panel2argv st"
  "profiles (emit es st) = profiles st" "trace (emit es st) = trace st @ es"
  "windowLayouts (emit es st) = windowLayouts st" "layout_windows (emit es st) = layout_windows st"
  "runMode (emit es st) = runMode st" "parseInt_exponent (emit es st) = parseInt_exponent st"
  by (simp_all add: emit_def)

lemma set_window_fields [simp]:
  "heap (set_window wid w st) = (heap st)(wid := w)" "nextObj (set_window wid w st) = nextObj st"
  "windows (set_window wid w st) = windows st" "mainWindow (set_window wid w st) = mainWindow st"
  "panel2windows (set_window wid w st) = panel2windows st"
  "panel2argv (set_window wid w st) = panel2argv st"
  "profiles (set_window wid w st) = profiles st" "trace (set_window wid w st) = trace st"
  "windowLayouts (set_window wid w st) = windowLayouts st"
  "layout_windows (set_window wid w st) = layout_windows st"
  "runMode (set_window wid w st) = runMode st"
  "parseInt_exponent (set_window wid w st) = parseInt_exponent st"
  by (simp_all add: set_window_def)

lemma native_call_live:
  "nativeWin (heap st wid) = Some nw \<Longrightarrow> native_call wid e st = (Return (), emit [e] st)"
  by (simp add: native_call_def)


lemma profile_overwrite:
  "(p::profile)\<lparr>p_x := a, p_y := b, p_width := c, p_height := d\<rparr>
     = \<lparr>p_x = a, p_y = b, p_width = c, p_height = d\<rparr>"
  by (cases p) simp


lemma Panel_saveLayout_live:
  assumes "nativeWin (heap st w) = Some nw"
  shows "Panel_saveLayout w (PanelStr panelID) st =
           (Return (),
            if isMainWindow st w then st
            else st\<lparr>profiles := AList.update (''layout.'' @ panelID)
                     \<lparr>p_x = Some (fst (position nw)), p_y = Some (snd (position nw)),
                      p_width = Some (fst (contentSize nw)), p_height = Some (snd (contentSize nw))\<rparr>
                     (profiles st)\<rparr>)"
  using assms by (simp add: Panel_saveLayout_def profile_save_def Let_def profile_overwrite)

section \<open>Opening a panel\<close>

text \<open>
  C10. When \<open>Editor.Package.panelInfo\<close> has no panel info for the panel id, \<open>open\<close>
  reports the error and does nothing else: the state after the call is the state before
  it with the one error appended to the trace. So no window is created, and the
  panel-to-window mapping and the cached \<open>argv\<close> table are as they were.
\<close>

theorem open_without_panelInfo:
  assumes "package_panelInfo st panelID = None"
  shows "Panel_open now panelID argv st =
           (Return (),
            st\<lparr>trace := trace st @
               [EditorError (''Failed to open panel '' @ panelID @ '', panel info not found.'')]\<rparr>)"
  using assms by (simp add: Panel_open_def emit_def)

theorem open_without_panelInfo_witness:
  "package_panelInfo (example_editor\<lparr>panel2argv := [(''pkg.panel'', JStr ''old'')]\<rparr>) ''pkg.panel'' = None
   \<and> Panel_open ''1446000000000'' ''pkg.panel'' (JStr ''new'')
         (example_editor\<lparr>panel2argv := [(''pkg.panel'', JStr ''old'')]\<rparr>)
       = (Return (),
          example_editor\<lparr>panel2argv := [(''pkg.panel'', JStr ''old'')],
            trace := [EditorError ''Failed to open panel pkg.panel, panel info not found.'']\<rparr>)"
  using open_without_panelInfo
    [of "example_editor\<lparr>panel2argv := [(''pkg.panel'', JStr ''old'')]\<rparr>" "''pkg.panel''"
        "''1446000000000''" "JStr ''new''"]
  by (simp add: example_editor_def)

text \<open>
  C5, as the code has it. \<open>open\<close> looks the panel info up first and gives up without it,
  docked or not. For a panel id that has panel info and is docked in a window \<open>w\<close> whose
  native window is there, \<open>open\<close> caches the new \<open>argv\<close>, sends \<open>panel:run\<close> with it to
  the panel, shows and focuses \<open>w\<close>, and changes nothing else: no window is created and
  the mapping still sends the panel id to \<open>w\<close>.
\<close>

theorem open_docked_panel:
  assumes "package_panelInfo st panelID = Some info"
      and "Panel_findWindow st panelID = Some w"
      and "nativeWin (heap st w) = Some nw"
  shows "Panel_open now panelID argv st =
           (Return (),
            st\<lparr>panel2argv := AList.update panelID argv (panel2argv st),
               trace := trace st @ [SendToPanel panelID ''panel:run'' [argv], NativeShow w, NativeFocus w]\<rparr>)"
  using assms
  by (simp add: Panel_open_def Panel_findWindow_def Window_show_def Window_focus_def
      native_call_def emit_def andThen_def)

theorem open_docked_panel_witness:
  "Panel_findWindow (example_editor\<lparr>package_panelInfo := (\<lambda>p. Some example_info)\<rparr>) ''pkg.panel'' = Some 0
   \<and> Panel_open ''1446000000000'' ''pkg.panel'' (JStr ''a'')
         (example_editor\<lparr>package_panelInfo := (\<lambda>p. Some example_info)\<rparr>)
       = (Return (),
          example_editor\<lparr>package_panelInfo := (\<lambda>p. Some example_info),
            panel2argv := [(''pkg.panel'', JStr ''a'')],
            trace := [SendToPanel ''pkg.panel'' ''panel:run'' [JStr ''a''], NativeShow 0, NativeFocus 0]\<rparr>)"
  using open_docked_panel
    [of "example_editor\<lparr>package_panelInfo := (\<lambda>p. Some example_info)\<rparr>" "''pkg.panel''"
        example_info 0 example_native "''1446000000000''" "JStr ''a''"]
  by (simp add: example_editor_def Panel_findWindow_def)

text \<open>
  The claim as written fails for a docked panel whose package gives no panel info: the
  panel \<open>pkg.panel\<close> is docked in window 0, and \<open>open\<close> only reports the error; no
  \<open>panel:run\<close> is sent and the window is neither shown nor focused.
\<close>

theorem open_docked_panel_counterexample:
  "Panel_findWindow example_editor ''pkg.panel'' = Some 0
   \<and> nativeWin (heap example_editor 0) = Some example_native
   \<and> trace (snd (Panel_open ''1446000000000'' ''pkg.panel'' (JStr ''a'') example_editor))
       = [EditorError ''Failed to open panel pkg.panel, panel info not found.'']"
  by (simp add: Panel_open_def Panel_findWindow_def emit_def example_editor_def)

section \<open>Closing a panel\<close>




text \<open>
  A panel closed while a sibling stays docked in the same window: the window is not
  asked to close.
\<close>

lemma close_panel_with_sibling:
  "trace (snd (Panel_close (PanelStr ''pkg.panel'')
      (example_editor\<lparr>panel2windows := [(''pkg.panel'', 0), (''pkg.other'', 0)]\<rparr>)))
     = [WebContentsSend 0 ''panel:undock'' [JStr ''pkg.panel'']]"
  by (simp add: Panel_close_def Panel_undock_def sendToPage_def andThen_def
      example_editor_def example_native_def blank_window_def Panel_saveLayout_def isMainWindow_def
      AList.delete_eq profile_save_def emit_def Let_def)

section \<open>Lookups by package name\<close>

text \<open>
  C7. \<open>findWindows\<close> compares the package name with the second piece of the panel id,
  the panel's name, where \<open>findPanels\<close> compares it with the first. With \<open>pkg.panel\<close>
  docked in window 0, asking for the windows of package \<open>pkg\<close> finds none, and asking
  for \<open>panel\<close> finds window 0.
\<close>

theorem findWindows_compares_panel_name:
  "Panel_findWindows example_editor ''pkg'' = []
   \<and> Panel_findWindows example_editor ''panel'' = [0]
   \<and> Panel_findPanels example_editor ''pkg'' = [[''pkg'', ''panel'']]"
  by (simp add: Panel_findWindows_def Panel_findPanels_def example_editor_def)

text \<open>
  C4. \<open>findPanels\<close> collects the split pairs, not the panel ids, and \<open>closeAll\<close> hands
  each pair to \<open>close\<close>, where it is looked up as the key \<open>pkg,panel\<close>. With \<open>pkg.panel\<close>
  docked, \<open>closeAll\<close> of package \<open>pkg\<close> changes nothing: the panel stays docked.
\<close>

theorem closeAll_leaves_panel_docked:
  "Panel_closeAll ''pkg'' example_editor = (Return (), example_editor)
   \<and> Panel_findWindow example_editor ''pkg.panel'' = Some 0"
  by (simp add: Panel_closeAll_def Panel_findPanels_def example_editor_def Panel_close_def
      Panel_undock_def andThen_def Panel_findWindow_def)

lemma two_elements: "length xs = 2 \<longleftrightarrow> (\<exists>a b. xs = [a, b])"
proof (cases xs)
  case Nil
  then show ?thesis by simp
next
  case (Cons a ys)
  then show ?thesis by (cases ys) simp_all
qed

lemma pair_shape: "length xs = 2 \<and> xs ! 1 = n \<longleftrightarrow> (\<exists>a. xs = [a, n])"
proof
  assume h: "length xs = 2 \<and> xs ! 1 = n"
  then obtain a b where "xs = [a, b]"
    using two_elements [of xs] by blast
  with h show "\<exists>a. xs = [a, n]" by simp
next
  assume "\<exists>a. xs = [a, n]"
  then obtain a where "xs = [a, n]" ..
  then show "length xs = 2 \<and> xs ! 1 = n" by simp
qed

lemma findWindows_loop_step:
  "findWindows_loop ((p, w) # ps) n wins =
     (if \<exists>a. split_dot p = [a, n]
      then findWindows_loop ps n (if w \<in> set wins then wins else wins @ [w])
      else findWindows_loop ps n wins)"
proof (cases "\<exists>a. split_dot p = [a, n]")
  case True
  then obtain a where "split_dot p = [a, n]" ..
  then show ?thesis by simp
next
  case False
  then have "\<not> (length (split_dot p) = 2 \<and> split_dot p ! 1 = n)"
    using pair_shape [of "split_dot p" n] by simp
  with False show ?thesis by (simp add: Let_def)
qed

lemma findWindows_loop_set:
  "set (findWindows_loop ps n wins) =
     set wins \<union> {w. \<exists>p a. (p, w) \<in> set ps \<and> split_dot p = [a, n]}"
proof (induction ps arbitrary: wins)
  case Nil
  show ?case by simp
next
  case (Cons x ps)
  obtain p w where x: "x = (p, w)" by (cases x)
  have s: "{v. \<exists>q a. (q, v) \<in> set ((p, w) # ps) \<and> split_dot q = [a, n]} =
           (if \<exists>a. split_dot p = [a, n] then {w} else {})
             \<union> {v. \<exists>q a. (q, v) \<in> set ps \<and> split_dot q = [a, n]}"
  proof (cases "\<exists>a. split_dot p = [a, n]")
    case True
    then show ?thesis by (simp only: list.set if_True) blast
  next
    case False
    then show ?thesis by (simp only: list.set if_False) blast
  qed
  show ?case
  proof (cases "\<exists>a. split_dot p = [a, n]")
    case True
    then show ?thesis
      unfolding x findWindows_loop_step s
      by (cases "w \<in> set wins") (simp_all add: Cons.IH insert_absorb)
  next
    case False
    then show ?thesis
      unfolding x findWindows_loop_step s by (simp add: Cons.IH)
  qed
qed

lemma findWindows_loop_distinct:
  "distinct wins \<Longrightarrow> distinct (findWindows_loop ps n wins)"
proof (induction ps arbitrary: wins)
  case Nil
  then show ?case by simp
next
  case (Cons x ps)
  obtain p w where x: "x = (p, w)" by (cases x)
  have "distinct (if w \<in> set wins then wins else wins @ [w])"
    using Cons.prems by simp
  then show ?case
    unfolding x findWindows_loop_step using Cons.prems by (simp only: Cons.IH split: if_split) simp
qed

text \<open>
  What \<open>findWindows\<close> does find: without duplicates, the windows of the docked panels
  whose id has two pieces of which the second is the name asked for.
\<close>

lemma findWindows_what_it_finds:
  "set (Panel_findWindows st n) = {w. \<exists>p a. (p, w) \<in> set (panel2windows st) \<and> split_dot p = [a, n]}
   \<and> distinct (Panel_findWindows st n)"
  by (simp add: Panel_findWindows_def findWindows_loop_set findWindows_loop_distinct)

lemma findPanels_loop_pairs:
  "\<forall>q \<in> set acc. length q = 2 \<Longrightarrow> \<forall>q \<in> set (findPanels_loop ps n acc). length q = 2"
proof (induction ps arbitrary: acc)
  case Nil
  then show ?case by simp
next
  case (Cons x ps)
  obtain p w where x: "x = (p, w)" by (cases x)
  show ?case
  proof (cases "length (split_dot p) = 2 \<and> split_dot p ! 0 = n")
    case True
    then have "\<forall>q \<in> set (acc @ [split_dot p]). length q = 2"
      using Cons.prems by simp
    from Cons.IH [OF this] True x show ?thesis by (simp add: Let_def)
  next
    case False
    with Cons.IH [OF Cons.prems] x show ?thesis by (auto simp add: Let_def)
  qed
qed

lemma join_comma_pair:
  assumes "length q = 2"
  shows "CHR '','' \<in> set (join_comma q)"
proof -
  from assms obtain a b where "q = [a, b]"
    using two_elements [of q] by blast
  then show ?thesis by simp
qed

lemma close_unknown:
  "map_of (panel2windows st) (ToString panelID) = None \<Longrightarrow> Panel_close panelID st = (Return (), st)"
  by (simp add: Panel_close_def Panel_undock_def andThen_def)

lemma closeAll_loop_noop:
  "\<forall>q \<in> set qs. map_of (panel2windows st) (join_comma q) = None \<Longrightarrow>
   closeAll_loop qs st = (Return (), st)"
  by (induction qs) (simp_all add: close_unknown)

text \<open>
  And \<open>closeAll\<close> closes nothing at all as long as no docked panel id has a comma in it.
\<close>

lemma closeAll_closes_nothing:
  assumes "\<forall>(k, w) \<in> set (panel2windows st). CHR '','' \<notin> set k"
  shows "Panel_closeAll packageName st = (Return (), st)"
proof -
  have "map_of (panel2windows st) (join_comma q) = None"
    if "q \<in> set (Panel_findPanels st packageName)" for q
  proof -
    have "length q = 2"
      using that findPanels_loop_pairs [of "[]" "panel2windows st" packageName]
      by (simp add: Panel_findPanels_def)
    then have "CHR '','' \<in> set (join_comma q)" by (rule join_comma_pair)
    then have "join_comma q \<notin> fst ` set (panel2windows st)"
      using assms by force
    then show ?thesis by (simp add: map_of_eq_None_iff)
  qed
  then show ?thesis
    by (simp add: Panel_closeAll_def closeAll_loop_noop)
qed

lemma closeAll_closes_nothing_example:
  "Panel_closeAll ''pkg'' (example_editor\<lparr>panel2windows := [(''pkg.panel'', 0), (''pkg.other'', 0)]\<rparr>)
     = (Return (), example_editor\<lparr>panel2windows := [(''pkg.panel'', 0), (''pkg.other'', 0)]\<rparr>)"
  using closeAll_closes_nothing
    [of "example_editor\<lparr>panel2windows := [(''pkg.panel'', 0), (''pkg.other'', 0)]\<rparr>" "''pkg''"]
  by (simp add: example_editor_def)

section \<open>Window kinds\<close>

lemma onWindowClose_loop_live:
  "nativeWin (heap st wid) = Some nw \<Longrightarrow>
   \<exists>st'. onWindowClose_loop ps wid st = (Return (), st')
     \<and> heap st' = heap st \<and> trace st' = trace st \<and> windows st' = windows st
     \<and> mainWindow st' = mainWindow st \<and> panel2windows st' = panel2windows st
     \<and> nextObj st' = nextObj st"
proof (induction ps arbitrary: st)
  case Nil
  then show ?case by simp
next
  case (Cons a ps)
  obtain i win where a: "a = (i, win)" by (cases a)
  show ?case
  proof (cases "win = wid")
    case True
    obtain s where sv: "Panel_saveLayout wid (PanelStr i) st = (Return (), s)"
      and same: "heap s = heap st" "trace s = trace st" "windows s = windows st"
        "mainWindow s = mainWindow st" "panel2windows s = panel2windows st" "nextObj s = nextObj st"
      using Cons.prems by (simp add: Panel_saveLayout_live)
    have "nativeWin (heap s wid) = Some nw"
      using Cons.prems same by simp
    from Cons.IH [OF this] obtain st' where
      "onWindowClose_loop ps wid s = (Return (), st')" "heap st' = heap s" "trace st' = trace s"
      "windows st' = windows s" "mainWindow st' = mainWindow s" "panel2windows st' = panel2windows s"
      "nextObj st' = nextObj s"
      by blast
    then show ?thesis
      using True a sv same by simp
  next
    case False
    then show ?thesis using Cons a by simp
  qed
qed

lemma saveWindowStates_fields [simp]:
  "heap (saveWindowStates st) = heap st" "nextObj (saveWindowStates st) = nextObj st"
  "windows (saveWindowStates st) = windows st" "mainWindow (saveWindowStates st) = mainWindow st"
  "panel2windows (saveWindowStates st) = panel2windows st"
  "trace (saveWindowStates st) = trace st"
  by (simp_all add: saveWindowStates_def)

lemma commitWindowState_frame:
  assumes "Window_commitWindowState wid l st = (r, st')"
  shows "heap st' = heap st \<and> windows st' = windows st \<and> nextObj st' = nextObj st
         \<and> mainWindow st' = mainWindow st \<and> panel2windows st' = panel2windows st
         \<and> (\<exists>rest. trace st' = trace st @ rest \<and> list_all is_warn rest)"
proof (cases "save (heap st wid)")
  case False
  then show ?thesis using assms by (simp add: Window_commitWindowState_def)
next
  case True
  show ?thesis
  proof (cases "nativeWin (heap st wid)")
    case None
    then show ?thesis using assms True by (simp add: Window_commitWindowState_def)
  next
    case (Some nw)
    obtain x y width height where b: "bounds nw = (x, y, width, height)"
      by (cases "bounds nw") auto
    show ?thesis
      using assms True Some b
      by (cases "width = 0"; cases "height = 0")
         (auto simp: Window_commitWindowState_def Let_def)
  qed
qed

lemma commitWindowState_live:
  assumes "save (heap st wid) \<longrightarrow> nativeWin (heap st wid) \<noteq> None"
  shows "fst (Window_commitWindowState wid l st) = Return ()"
proof (cases "save (heap st wid)")
  case False
  then show ?thesis by (simp add: Window_commitWindowState_def)
next
  case True
  then obtain nw where n: "nativeWin (heap st wid) = Some nw"
    using assms by auto
  obtain x y width height where b: "bounds nw = (x, y, width, height)"
    by (cases "bounds nw") auto
  show ?thesis
    using True n b by (simp add: Window_commitWindowState_def Let_def)
qed

lemma commitWindowStates_loop_frame:
  "commitWindowStates_loop ws st = (r, st') \<Longrightarrow>
   heap st' = heap st \<and> windows st' = windows st \<and> nextObj st' = nextObj st
   \<and> mainWindow st' = mainWindow st \<and> panel2windows st' = panel2windows st
   \<and> (\<exists>rest. trace st' = trace st @ rest \<and> list_all is_warn rest)"
proof (induction ws arbitrary: st)
  case Nil
  then show ?case by auto
next
  case (Cons w ws)
  obtain r1 s1 where c: "Window_commitWindowState w JUndefined st = (r1, s1)"
    by (cases "Window_commitWindowState w JUndefined st")
  note f1 = commitWindowState_frame [OF c]
  then obtain rest1 where t1: "trace s1 = trace st @ rest1" "list_all is_warn rest1"
    by blast
  show ?case
  proof (cases r1)
    case Throw
    then have "st' = s1" using Cons.prems c by simp
    then show ?thesis using f1 by simp
  next
    case (Return u)
    then have "commitWindowStates_loop ws s1 = (r, st')"
      using Cons.prems c by simp
    from Cons.IH [OF this] obtain rest2 where
      "heap st' = heap s1" "windows st' = windows s1" "nextObj st' = nextObj s1"
      "mainWindow st' = mainWindow s1" "panel2windows st' = panel2windows s1"
      "trace st' = trace s1 @ rest2" "list_all is_warn rest2"
      by blast
    then have "trace st' = trace st @ (rest1 @ rest2) \<and> list_all is_warn (rest1 @ rest2)"
      using t1 by simp
    then have "\<exists>rest. trace st' = trace st @ rest \<and> list_all is_warn rest"
      by blast
    then show ?thesis
      using f1 \<open>heap st' = heap s1\<close> \<open>windows st' = windows s1\<close> \<open>nextObj st' = nextObj s1\<close>
        \<open>mainWindow st' = mainWindow s1\<close> \<open>panel2windows st' = panel2windows s1\<close>
      by simp
  qed
qed

lemma commitWindowStates_loop_live:
  "\<forall>w \<in> set ws. save (heap st w) \<longrightarrow> nativeWin (heap st w) \<noteq> None \<Longrightarrow>
   fst (commitWindowStates_loop ws st) = Return ()"
proof (induction ws arbitrary: st)
  case Nil
  then show ?case by simp
next
  case (Cons w ws)
  obtain r1 s1 where c: "Window_commitWindowState w JUndefined st = (r1, s1)"
    by (cases "Window_commitWindowState w JUndefined st")
  have "save (heap st w) \<longrightarrow> nativeWin (heap st w) \<noteq> None"
    using Cons.prems by simp
  from commitWindowState_live [OF this, of JUndefined] have r1: "r1 = Return ()"
    using c by simp
  have "heap s1 = heap st"
    using commitWindowState_frame [OF c] by simp
  then have "\<forall>w \<in> set ws. save (heap s1 w) \<longrightarrow> nativeWin (heap s1 w) \<noteq> None"
    using Cons.prems by simp
  from Cons.IH [OF this] show ?case
    using c r1 by simp
qed

lemma on_close_quick:
  assumes q: "windowType (heap st wid) = ''quick''" and live: "nativeWin (heap st wid) = Some nw"
  shows "\<exists>rest. trace (snd (on_close wid st)) = trace st @ [PreventDefault wid, NativeHide wid] @ rest
           \<and> list_all is_warn rest
           \<and> heap (snd (on_close wid st)) = heap st
           \<and> windows (snd (on_close wid st)) = windows st
           \<and> (fst (on_close wid st) = Return True \<or> fst (on_close wid st) = Throw)
           \<and> ((\<forall>w \<in> set (windows st). save (heap st w) \<longrightarrow> nativeWin (heap st w) \<noteq> None)
                \<longrightarrow> fst (on_close wid st) = Return True)"
proof -
  let ?s1 = "emit [NativeHide wid] (emit [PreventDefault wid] st)"
  have live1: "nativeWin (heap ?s1 wid) = Some nw"
    using live by simp
  from onWindowClose_loop_live [OF live1, of "panel2windows ?s1"]
  obtain s2 where s2: "Panel_onWindowClose wid ?s1 = (Return (), s2)"
    "heap s2 = heap ?s1" "trace s2 = trace ?s1" "windows s2 = windows ?s1"
    by (auto simp: Panel_onWindowClose_def)
  obtain r s3 where c: "commitWindowStates_loop (windows s2) s2 = (r, s3)"
    by (cases "commitWindowStates_loop (windows s2) s2")
  from commitWindowStates_loop_frame [OF c] obtain rest where
    s3: "heap s3 = heap s2" "windows s3 = windows s2" "trace s3 = trace s2 @ rest"
      "list_all is_warn rest"
    by blast
  have oc: "on_close wid st =
              (case r of Throw \<Rightarrow> (Throw, s3) | Return u \<Rightarrow> (Return True, saveWindowStates s3))"
    using q live s2(1) c
    by (simp add: on_close_def andThen_def native_call_def commitWindowStates_def
        split: outcome.splits)
  have all: "(\<forall>w \<in> set (windows st). save (heap st w) \<longrightarrow> nativeWin (heap st w) \<noteq> None)
               \<longrightarrow> r = Return ()"
  proof
    assume "\<forall>w \<in> set (windows st). save (heap st w) \<longrightarrow> nativeWin (heap st w) \<noteq> None"
    then have "\<forall>w \<in> set (windows s2). save (heap s2 w) \<longrightarrow> nativeWin (heap s2 w) \<noteq> None"
      using s2 by simp
    from commitWindowStates_loop_live [OF this] show "r = Return ()"
      using c by simp
  qed
  have "trace (snd (on_close wid st)) = trace st @ [PreventDefault wid, NativeHide wid] @ rest
           \<and> list_all is_warn rest
           \<and> heap (snd (on_close wid st)) = heap st
           \<and> windows (snd (on_close wid st)) = windows st
           \<and> (fst (on_close wid st) = Return True \<or> fst (on_close wid st) = Throw)
           \<and> ((\<forall>w \<in> set (windows st). save (heap st w) \<longrightarrow> nativeWin (heap st w) \<noteq> None)
                \<longrightarrow> fst (on_close wid st) = Return True)"
    using s2 s3 all by (cases r) (simp_all add: oc)
  then show ?thesis by blast
qed

lemma EditorWindow_new_trace:
  "trace (snd (EditorWindow_new nm opts st)) =
     trace st @ NewBrowserWindow (nextObj st)
                  (fst (windowType_switch
                     (case o_windowType opts of None \<Rightarrow> ''dockable'' | Some t \<Rightarrow> t)
                     (defaultsDeep opts)))
       # (if snd (windowType_switch
                     (case o_windowType opts of None \<Rightarrow> ''dockable'' | Some t \<Rightarrow> t)
                     (defaultsDeep opts))
          then [NativeSetAlwaysOnTop (nextObj st) True] else [])"
  by (simp add: EditorWindow_new_def defaultsDeep_def addWindow_def Let_def
      split: prod.split option.split)

text \<open>
  C9. The options that reach \<open>new BrowserWindow\<close> are the given ones with the defaults
  filled in and, by window type: \<open>dockable\<close> resizable and not always on top; \<open>float\<close>
  resizable and always on top; \<open>fixed-size\<close> not resizable and always on top; \<open>quick\<close>
  resizable and always on top. When the native window of a quick window is asked to
  close, the handler of \<open>close\<close> first prevents the default and hides the window; what it
  does after that adds at most warnings to the trace, and the object keeps its native
  window and stays in \<open>_windows\<close>, whether the handler returns or throws. It returns when
  every window of \<open>_windows\<close> that is saved still has its native window (committing the
  state of a disposed one throws); then \<open>closed\<close> is not emitted.
\<close>

theorem windowType_options:
  "trace (snd (EditorWindow_new nm (opts\<lparr>o_windowType := Some ''dockable''\<rparr>) st)) =
     trace st @ [NewBrowserWindow (nextObj st)
       ((defaultsDeep (opts\<lparr>o_windowType := Some ''dockable''\<rparr>))
          \<lparr>o_resizable := Some True, o_alwaysOnTop := Some False\<rparr>)]
   \<and> trace (snd (EditorWindow_new nm (opts\<lparr>o_windowType := Some ''float''\<rparr>) st)) =
     trace st @ [NewBrowserWindow (nextObj st)
       ((defaultsDeep (opts\<lparr>o_windowType := Some ''float''\<rparr>))
          \<lparr>o_resizable := Some True, o_alwaysOnTop := Some True\<rparr>)]
   \<and> trace (snd (EditorWindow_new nm (opts\<lparr>o_windowType := Some ''fixed-size''\<rparr>) st)) =
     trace st @ [NewBrowserWindow (nextObj st)
       ((defaultsDeep (opts\<lparr>o_windowType := Some ''fixed-size''\<rparr>))
          \<lparr>o_resizable := Some False, o_alwaysOnTop := Some True\<rparr>)]
   \<and> trace (snd (EditorWindow_new nm (opts\<lparr>o_windowType := Some ''quick''\<rparr>) st)) =
     trace st @ [NewBrowserWindow (nextObj st)
       ((defaultsDeep (opts\<lparr>o_windowType := Some ''quick''\<rparr>))
          \<lparr>o_resizable := Some True, o_alwaysOnTop := Some True\<rparr>),
        NativeSetAlwaysOnTop (nextObj st) True]
   \<and> windowType (heap (snd (EditorWindow_new nm (opts\<lparr>o_windowType := Some ''quick''\<rparr>) st)) (nextObj st))
       = ''quick''
   \<and> (windowType (heap st wid) = ''quick'' \<and> nativeWin (heap st wid) = Some nw \<longrightarrow>
        (\<exists>rest. trace (snd (on_close wid st)) = trace st @ [PreventDefault wid, NativeHide wid] @ rest
           \<and> list_all is_warn rest
           \<and> nativeWin (heap (snd (on_close wid st)) wid) = Some nw
           \<and> windows (snd (on_close wid st)) = windows st))
   \<and> (windowType (heap st wid) = ''quick'' \<and> nativeWin (heap st wid) = Some nw
        \<and> (\<forall>w \<in> set (windows st). save (heap st w) \<longrightarrow> nativeWin (heap st w) \<noteq> None) \<longrightarrow>
        (\<exists>st'. on_close wid st = (Return True, st')
           \<and> native_close_request B wid st = (Return (), st')))"
proof -
  have a: "trace (snd (EditorWindow_new nm (opts\<lparr>o_windowType := Some ''dockable''\<rparr>) st)) =
     trace st @ [NewBrowserWindow (nextObj st)
       ((defaultsDeep (opts\<lparr>o_windowType := Some ''dockable''\<rparr>))
          \<lparr>o_resizable := Some True, o_alwaysOnTop := Some False\<rparr>)]"
    by (simp add: EditorWindow_new_trace windowType_switch_def)
  have b: "trace (snd (EditorWindow_new nm (opts\<lparr>o_windowType := Some ''float''\<rparr>) st)) =
     trace st @ [NewBrowserWindow (nextObj st)
       ((defaultsDeep (opts\<lparr>o_windowType := Some ''float''\<rparr>))
          \<lparr>o_resizable := Some True, o_alwaysOnTop := Some True\<rparr>)]"
    by (simp add: EditorWindow_new_trace windowType_switch_def)
  have c: "trace (snd (EditorWindow_new nm (opts\<lparr>o_windowType := Some ''fixed-size''\<rparr>) st)) =
     trace st @ [NewBrowserWindow (nextObj st)
       ((defaultsDeep (opts\<lparr>o_windowType := Some ''fixed-size''\<rparr>))
          \<lparr>o_resizable := Some False, o_alwaysOnTop := Some True\<rparr>)]"
    by (simp add: EditorWindow_new_trace windowType_switch_def)
  have d: "trace (snd (EditorWindow_new nm (opts\<lparr>o_windowType := Some ''quick''\<rparr>) st)) =
     trace st @ [NewBrowserWindow (nextObj st)
       ((defaultsDeep (opts\<lparr>o_windowType := Some ''quick''\<rparr>))
          \<lparr>o_resizable := Some True, o_alwaysOnTop := Some True\<rparr>),
        NativeSetAlwaysOnTop (nextObj st) True]"
    by (simp add: EditorWindow_new_trace windowType_switch_def)
  have e: "windowType (heap (snd (EditorWindow_new nm (opts\<lparr>o_windowType := Some ''quick''\<rparr>) st)) (nextObj st))
       = ''quick''"
    by (simp add: EditorWindow_new_def defaultsDeep_def addWindow_def Let_def windowType_switch_def)
  have f: "windowType (heap st wid) = ''quick'' \<and> nativeWin (heap st wid) = Some nw \<longrightarrow>
        (\<exists>rest. trace (snd (on_close wid st)) = trace st @ [PreventDefault wid, NativeHide wid] @ rest
           \<and> list_all is_warn rest
           \<and> nativeWin (heap (snd (on_close wid st)) wid) = Some nw
           \<and> windows (snd (on_close wid st)) = windows st)"
  proof
    assume h: "windowType (heap st wid) = ''quick'' \<and> nativeWin (heap st wid) = Some nw"
    then obtain rest where
      "trace (snd (on_close wid st)) = trace st @ [PreventDefault wid, NativeHide wid] @ rest"
      "list_all is_warn rest" "heap (snd (on_close wid st)) = heap st"
      "windows (snd (on_close wid st)) = windows st"
      using on_close_quick [of st wid nw] by blast
    with h show "\<exists>rest. trace (snd (on_close wid st)) = trace st @ [PreventDefault wid, NativeHide wid] @ rest
           \<and> list_all is_warn rest
           \<and> nativeWin (heap (snd (on_close wid st)) wid) = Some nw
           \<and> windows (snd (on_close wid st)) = windows st"
      by simp
  qed
  have g: "windowType (heap st wid) = ''quick'' \<and> nativeWin (heap st wid) = Some nw
        \<and> (\<forall>w \<in> set (windows st). save (heap st w) \<longrightarrow> nativeWin (heap st w) \<noteq> None) \<longrightarrow>
        (\<exists>st'. on_close wid st = (Return True, st')
           \<and> native_close_request B wid st = (Return (), st'))"
  proof
    assume h: "windowType (heap st wid) = ''quick'' \<and> nativeWin (heap st wid) = Some nw
        \<and> (\<forall>w \<in> set (windows st). save (heap st w) \<longrightarrow> nativeWin (heap st w) \<noteq> None)"
    then have "fst (on_close wid st) = Return True"
      using on_close_quick [of st wid nw] by blast
    then obtain st' where oc: "on_close wid st = (Return True, st')"
      by (cases "on_close wid st") simp
    then have "native_close_request B wid st = (Return (), st')"
      by (simp add: native_close_request_def andThen_def)
    with oc show "\<exists>st'. on_close wid st = (Return True, st')
           \<and> native_close_request B wid st = (Return (), st')"
      by blast
  qed
  from a b c d e f g show ?thesis by (intro conjI)
qed

theorem windowType_options_witness:
  "windowType (heap example_quick_editor 1) = ''quick''
   \<and> nativeWin (heap example_quick_editor 1) = Some example_native
   \<and> windows example_quick_editor = [0, 1]
   \<and> nativeWin (heap example_quick_editor 0) = Some example_native
   \<and> (\<exists>rest. trace (snd (on_close 1 example_quick_editor))
              = trace example_quick_editor @ [PreventDefault 1, NativeHide 1] @ rest
         \<and> list_all is_warn rest
         \<and> nativeWin (heap (snd (on_close 1 example_quick_editor)) 1) = Some example_native
         \<and> windows (snd (on_close 1 example_quick_editor)) = [0, 1])
   \<and> (\<exists>st'. on_close 1 example_quick_editor = (Return True, st')
         \<and> native_close_request returning_callbacks 1 example_quick_editor = (Return (), st'))"
proof -
  have q: "windowType (heap example_quick_editor 1) = ''quick''"
    by (simp add: example_quick_editor_def EditorWindow_new_def defaultsDeep_def no_options_def
        windowType_switch_def addWindow_def example_editor_def Let_def)
  have n: "nativeWin (heap example_quick_editor 1) = Some example_native"
    by (simp add: example_quick_editor_def EditorWindow_new_def defaultsDeep_def no_options_def
        windowType_switch_def addWindow_def example_editor_def Let_def)
  have w: "windows example_quick_editor = [0, 1]"
    by (simp add: example_quick_editor_def EditorWindow_new_def defaultsDeep_def no_options_def
        windowType_switch_def addWindow_def example_editor_def Let_def)
  have n0: "nativeWin (heap example_quick_editor 0) = Some example_native"
    by (simp add: example_quick_editor_def EditorWindow_new_def defaultsDeep_def no_options_def
        windowType_switch_def addWindow_def example_editor_def Let_def)
  show ?thesis
    using windowType_options [where st = example_quick_editor and wid = 1 and nw = example_native
        and B = returning_callbacks]
      q n w n0
    by simp
qed

section \<open>Sessions\<close>

lemma called_sessions_simps [simp]:
  "called_sessions [] = []"
  "called_sessions (e # es) = called_session e @ called_sessions es"
  "called_sessions (es @ fs) = called_sessions es @ called_sessions fs"
  by (simp_all add: called_sessions_def)

lemma reply_calls_simps [simp]:
  "reply_calls [] = []"
  "reply_calls (e # es) = (if is_call e then e # reply_calls es else reply_calls es)"
  "reply_calls (es @ fs) = reply_calls es @ reply_calls fs"
  by (simp_all add: reply_calls_def)







lemma sendToPage_effect:
  "sendToPage wid channel args st = (r, st') \<Longrightarrow>
   heap st' = heap st \<and> nextObj st' = nextObj st
   \<and> called_sessions (trace st') = called_sessions (trace st)"
  by (auto simp: sendToPage_def split: option.splits if_splits)

lemma sendRequestToPage_effect:
  assumes "sendRequestToPage wid channel args st = (r, st')"
  shows "nextObj st' = nextObj st \<and> called_sessions (trace st') = called_sessions (trace st)
     \<and> (\<forall>w. w \<noteq> wid \<longrightarrow> heap st' w = heap st w)
     \<and> ((replyCallbacks (heap st' wid) = replyCallbacks (heap st wid)
           \<and> nextSessionId (heap st' wid) = nextSessionId (heap st wid) \<and> step_allocated wid (OpSendRequest wid channel args) st = [])
         \<or> (\<exists>f. typeof f = ''function''
               \<and> replyCallbacks (heap st' wid)
                   = AList.update (nextSessionId (heap st wid)) f (replyCallbacks (heap st wid))
               \<and> nextSessionId (heap st' wid) = Suc (nextSessionId (heap st wid))))"
proof (cases "typeof channel \<noteq> ''string'' \<or> args = [] \<or> typeof (last args) \<noteq> ''function''")
  case True
  then show ?thesis using assms
    by (auto simp: sendRequestToPage_def split: if_splits)
next
  case False
  define w' where "w' = (heap st wid)\<lparr>nextSessionId := nextSessionId (heap st wid) + 1,
      replyCallbacks := AList.update (nextSessionId (heap st wid)) (last args) (replyCallbacks (heap st wid))\<rparr>"
  obtain r1 s1 where s1: "sendToPage wid ''editor:sendreq2page''
      [channel, JNum (int (nextSessionId (heap st wid))), JArr (butlast args)] (set_window wid w' st) = (r1, s1)"
    by (cases "sendToPage wid ''editor:sendreq2page''
      [channel, JNum (int (nextSessionId (heap st wid))), JArr (butlast args)] (set_window wid w' st)")
  from sendToPage_effect [OF s1] have e: "heap s1 = (heap st)(wid := w')" "nextObj s1 = nextObj st"
    "called_sessions (trace s1) = called_sessions (trace st)"
    by simp_all
  have "st' = s1"
    using assms False s1 by (cases r1) (simp_all add: sendRequestToPage_def Let_def w'_def andThen_def)
  with e False show ?thesis
    by (auto simp: w'_def)
qed

lemma cancelRequestToPage_effect:
  "cancelRequestToPage wid s st = (r, st') \<Longrightarrow>
   nextObj st' = nextObj st \<and> trace st' = trace st
   \<and> (\<forall>w. w \<noteq> wid \<longrightarrow> heap st' w = heap st w)
   \<and> replyCallbacks (heap st' wid) = AList.delete s (replyCallbacks (heap st wid))
   \<and> nextSessionId (heap st' wid) = nextSessionId (heap st wid)"
  by (auto simp: cancelRequestToPage_def Let_def)

lemma EditorWindow_new_effect:
  "EditorWindow_new nm opts st = (r, st') \<Longrightarrow>
   nextObj st' = Suc (nextObj st)
   \<and> (\<forall>w. w \<noteq> nextObj st \<longrightarrow> heap st' w = heap st w)
   \<and> nextSessionId (heap st' (nextObj st)) = 0
   \<and> replyCallbacks (heap st' (nextObj st)) = []
   \<and> called_sessions (trace st') = called_sessions (trace st)"
  by (auto simp: EditorWindow_new_def Let_def addWindow_def split: prod.splits)

lemma set_update_subset: "set (AList.update k v al) \<subseteq> insert (k, v) (set al)"
  by (induction al) auto

lemma sessions_wf_iff:
  "sessions_wf st \<longleftrightarrow>
     (\<forall>wid < nextObj st. distinct (pending st wid)
        \<and> (\<forall>(k, v) \<in> set (replyCallbacks (heap st wid)).
              k < nextSessionId (heap st wid) \<and> typeof v = ''function''))
     \<and> distinct (called_sessions (trace st))
     \<and> (\<forall>(wid, k) \<in> set (called_sessions (trace st)).
           wid < nextObj st \<and> k < nextSessionId (heap st wid) \<and> k \<notin> set (pending st wid))"
  by (auto simp: sessions_wf_def list_all_iff)

lemma table_ok_store:
  assumes "table_ok cbs n" and "typeof f = ''function''"
  shows "table_ok (AList.update n f cbs) (Suc n)"
proof -
  have "\<And>k v. (k, v) \<in> set (AList.update n f cbs) \<Longrightarrow> k < Suc n \<and> typeof v = ''function''"
  proof -
    fix k v assume "(k, v) \<in> set (AList.update n f cbs)"
    then have "(k, v) = (n, f) \<or> (k, v) \<in> set cbs"
      using set_update_subset [of n f cbs] by auto
    then show "k < Suc n \<and> typeof v = ''function''"
      using assms by (auto simp: table_ok_def)
  qed
  moreover have "distinct (map fst (AList.update n f cbs))"
    using assms by (simp add: table_ok_def distinct_update)
  ultimately show ?thesis
    by (auto simp: table_ok_def)
qed

lemma table_ok_delete:
  assumes "table_ok cbs n"
  shows "table_ok (AList.delete s cbs) n"
proof -
  have "distinct (map fst (AList.delete s cbs))"
    using assms by (simp add: table_ok_def distinct_delete)
  moreover have "set (AList.delete s cbs) \<subseteq> set cbs"
    by (auto simp: AList.delete_eq)
  ultimately show ?thesis
    using assms unfolding table_ok_def by blast
qed

lemma table_ok_fresh: "table_ok cbs n \<Longrightarrow> n \<notin> fst ` set cbs"
  by (fastforce simp: table_ok_def)

lemma sessions_wf_alt:
  "sessions_wf st \<longleftrightarrow>
     (\<forall>wid < nextObj st. table_ok (replyCallbacks (heap st wid)) (nextSessionId (heap st wid)))
     \<and> distinct (called_sessions (trace st))
     \<and> (\<forall>(wid, k) \<in> set (called_sessions (trace st)).
           wid < nextObj st \<and> k < nextSessionId (heap st wid) \<and> k \<notin> set (pending st wid))"
  by (simp add: sessions_wf_iff table_ok_def pending_def)


lemma wf_step_generic:
  assumes wf: "sessions_wf st" and adv: "advances st st'"
    and tab: "\<forall>w < nextObj st'. table_ok (replyCallbacks (heap st' w)) (nextSessionId (heap st' w))"
    and valid: "ks \<noteq> [] \<longrightarrow> wid < nextObj st"
    and called: "called_sessions (trace st') = called_sessions (trace st) @ map (Pair wid) ks"
    and ks: "distinct ks" "set ks \<subseteq> set (pending st wid)" "\<forall>k \<in> set ks. k \<notin> set (pending st' wid)"
  shows "sessions_wf st'"
proof -
  have old: "w < nextObj st' \<and> k < nextSessionId (heap st' w) \<and> k \<notin> set (pending st' w)"
    if "(w, k) \<in> set (called_sessions (trace st))" for w k
  proof -
    from that wf have h: "w < nextObj st" "k < nextSessionId (heap st w)" "k \<notin> set (pending st w)"
      unfolding sessions_wf_alt by auto
    from adv h(1) have "nextObj st \<le> nextObj st'"
      "nextSessionId (heap st w) \<le> nextSessionId (heap st' w)"
      "\<forall>k \<in> set (pending st' w). k \<in> set (pending st w) \<or> nextSessionId (heap st w) \<le> k"
      unfolding advances_def by auto
    with h show ?thesis by fastforce
  qed
  have new: "w < nextObj st' \<and> k < nextSessionId (heap st' w) \<and> k \<notin> set (pending st' w)"
    if "(w, k) \<in> set (map (Pair wid) ks)" for w k
  proof -
    from that have wk: "w = wid" "k \<in> set ks" by auto
    then have v: "wid < nextObj st" using valid by auto
    have "k \<in> set (pending st wid)" using wk ks by auto
    then have "k < nextSessionId (heap st wid)"
      using wf v unfolding sessions_wf_alt table_ok_def pending_def by fastforce
    moreover from adv v have "nextObj st \<le> nextObj st'"
      "nextSessionId (heap st wid) \<le> nextSessionId (heap st' wid)"
      unfolding advances_def by auto
    ultimately show ?thesis
      using wk v ks by auto
  qed
  have disj: "set (called_sessions (trace st)) \<inter> set (map (Pair wid) ks) = {}"
  proof -
    have "False" if "(w, k) \<in> set (called_sessions (trace st))" "(w, k) \<in> set (map (Pair wid) ks)" for w k
    proof -
      from that(2) have wk: "w = wid" "k \<in> set ks" by auto
      from that(1) wf have "k \<notin> set (pending st w)" unfolding sessions_wf_alt by auto
      with wk ks show False by auto
    qed
    then show ?thesis by auto
  qed
  have d: "distinct (called_sessions (trace st'))"
    using wf ks(1) disj by (simp add: called sessions_wf_alt distinct_map inj_on_def)
  have c: "\<forall>(w, k) \<in> set (called_sessions (trace st')).
           w < nextObj st' \<and> k < nextSessionId (heap st' w) \<and> k \<notin> set (pending st' w)"
  proof (clarify)
    fix w k assume "(w, k) \<in> set (called_sessions (trace st'))"
    then have "(w, k) \<in> set (called_sessions (trace st)) \<or> (w, k) \<in> set (map (Pair wid) ks)"
      unfolding called by simp
    then show "w < nextObj st' \<and> k < nextSessionId (heap st' w) \<and> k \<notin> set (pending st' w)"
      using old new by blast
  qed
  from tab d c show ?thesis
    unfolding sessions_wf_alt by simp
qed

lemma advances_refl: "advances st st"
  by (simp add: advances_def)

lemma advances_trans:
  assumes "advances a b" and "advances b c"
  shows "advances a c"
proof -
  have n: "nextObj a \<le> nextObj b" "nextObj b \<le> nextObj c"
    using assms by (simp_all add: advances_def)
  have "nextSessionId (heap a w) \<le> nextSessionId (heap c w)
        \<and> (\<forall>k \<in> set (pending c w). k \<in> set (pending a w) \<or> nextSessionId (heap a w) \<le> k)"
    if w: "w < nextObj a" for w
  proof -
    from w n have wb: "w < nextObj b" by simp
    from assms(1) w have ab: "nextSessionId (heap a w) \<le> nextSessionId (heap b w)"
      "\<forall>k \<in> set (pending b w). k \<in> set (pending a w) \<or> nextSessionId (heap a w) \<le> k"
      by (simp_all add: advances_def)
    from assms(2) wb have bc: "nextSessionId (heap b w) \<le> nextSessionId (heap c w)"
      "\<forall>k \<in> set (pending c w). k \<in> set (pending b w) \<or> nextSessionId (heap b w) \<le> k"
      by (simp_all add: advances_def)
    from ab bc show ?thesis
      by (meson le_trans)
  qed
  with n show ?thesis
    by (simp add: advances_def)
qed

lemma advances_single:
  assumes "nextObj st' = nextObj st"
    and "\<forall>w. w \<noteq> wid \<longrightarrow> replyCallbacks (heap st' w) = replyCallbacks (heap st w)
                \<and> nextSessionId (heap st' w) = nextSessionId (heap st w)"
    and "nextSessionId (heap st wid) \<le> nextSessionId (heap st' wid)"
    and "\<forall>k \<in> set (pending st' wid). k \<in> set (pending st wid) \<or> nextSessionId (heap st wid) \<le> k"
  shows "advances st st'"
  unfolding advances_def
proof (intro conjI allI impI)
  show "nextObj st \<le> nextObj st'" using assms(1) by simp
next
  fix w assume "w < nextObj st"
  show "nextSessionId (heap st w) \<le> nextSessionId (heap st' w)"
    using assms(2,3) by (cases "w = wid") simp_all
next
  fix w assume "w < nextObj st"
  show "\<forall>k \<in> set (pending st' w). k \<in> set (pending st w) \<or> nextSessionId (heap st w) \<le> k"
    using assms(2,4) by (cases "w = wid") (simp_all add: pending_def)
qed

lemma advances_same:
  assumes "nextObj st' = nextObj st"
    and "\<forall>w. replyCallbacks (heap st' w) = replyCallbacks (heap st w)
            \<and> nextSessionId (heap st' w) = nextSessionId (heap st w)"
  shows "advances st st'"
  using assms by (simp add: advances_def pending_def)

lemma advances_delete:
  "advances st
     (set_window wid ((heap st wid)\<lparr>replyCallbacks := AList.delete k (replyCallbacks (heap st wid))\<rparr>) st)"
  by (rule advances_single [where wid = wid]) (auto simp: pending_def delete_keys)

lemma tables_single:
  assumes wf: "sessions_wf st" and "nextObj st' = nextObj st"
    and "\<forall>w. w \<noteq> wid \<longrightarrow> replyCallbacks (heap st' w) = replyCallbacks (heap st w)
                \<and> nextSessionId (heap st' w) = nextSessionId (heap st w)"
    and "table_ok (replyCallbacks (heap st' wid)) (nextSessionId (heap st' wid))"
  shows "\<forall>w < nextObj st'. table_ok (replyCallbacks (heap st' w)) (nextSessionId (heap st' w))"
proof (intro allI impI)
  fix w assume "w < nextObj st'"
  then have "table_ok (replyCallbacks (heap st w)) (nextSessionId (heap st w))"
    using wf assms(2) unfolding sessions_wf_alt by simp
  then show "table_ok (replyCallbacks (heap st' w)) (nextSessionId (heap st' w))"
    using assms(3,4) by (cases "w = wid") simp_all
qed

lemma pending_update:
  "set (map fst (AList.update n f cbs)) = insert n (set (map fst cbs))"
  using dom_update [of n f cbs] by simp

lemma step_send:
  assumes v: "wid < nextObj st"
  shows "advances st (ipc_step B (OpSendRequest wid channel args) st)
     \<and> (sessions_wf st \<longrightarrow> sessions_wf (ipc_step B (OpSendRequest wid channel args) st))"
proof -
  obtain r st' where e: "sendRequestToPage wid channel args st = (r, st')"
    by (cases "sendRequestToPage wid channel args st")
  then have st': "ipc_step B (OpSendRequest wid channel args) st = st'"
    using v by simp
  note eff = sendRequestToPage_effect [OF e]
  from eff have n: "nextObj st' = nextObj st" and c: "called_sessions (trace st') = called_sessions (trace st)"
    and o: "\<forall>w. w \<noteq> wid \<longrightarrow> replyCallbacks (heap st' w) = replyCallbacks (heap st w)
                \<and> nextSessionId (heap st' w) = nextSessionId (heap st w)"
    by simp_all
  from eff consider
      (same) "replyCallbacks (heap st' wid) = replyCallbacks (heap st wid)"
             "nextSessionId (heap st' wid) = nextSessionId (heap st wid)"
    | (stored) f where "typeof f = ''function''"
        "replyCallbacks (heap st' wid)
           = AList.update (nextSessionId (heap st wid)) f (replyCallbacks (heap st wid))"
        "nextSessionId (heap st' wid) = Suc (nextSessionId (heap st wid))"
    by blast
  then show ?thesis
  proof cases
    case same
    have a: "advances st st'"
      by (rule advances_single [OF n o]) (simp_all add: same pending_def)
    have "sessions_wf st'" if wf: "sessions_wf st"
    proof (rule wf_step_generic [OF wf a, where ks = "[]" and wid = wid])
      have "table_ok (replyCallbacks (heap st wid)) (nextSessionId (heap st wid))"
        using wf v unfolding sessions_wf_alt by simp
      then show "\<forall>w < nextObj st'. table_ok (replyCallbacks (heap st' w)) (nextSessionId (heap st' w))"
        by (intro tables_single [OF wf n o]) (simp add: same)
    qed (simp_all add: c)
    with a st' show ?thesis by simp
  next
    case stored
    have pk: "set (pending st' wid) = insert (nextSessionId (heap st wid)) (set (pending st wid))"
      using dom_update [of "nextSessionId (heap st wid)" f "replyCallbacks (heap st wid)"]
      by (simp add: pending_def stored)
    have a: "advances st st'"
      by (rule advances_single [OF n o]) (simp_all add: stored pk)
    have "sessions_wf st'" if wf: "sessions_wf st"
    proof (rule wf_step_generic [OF wf a, where ks = "[]" and wid = wid])
      have "table_ok (replyCallbacks (heap st wid)) (nextSessionId (heap st wid))"
        using wf v unfolding sessions_wf_alt by simp
      then have "table_ok (replyCallbacks (heap st' wid)) (nextSessionId (heap st' wid))"
        using stored by (simp add: table_ok_store)
      then show "\<forall>w < nextObj st'. table_ok (replyCallbacks (heap st' w)) (nextSessionId (heap st' w))"
        by (intro tables_single [OF wf n o])
    qed (simp_all add: c)
    with a st' show ?thesis by simp
  qed
qed

lemma step_cancel:
  assumes v: "wid < nextObj st"
  shows "advances st (ipc_step B (OpCancel wid s) st)
     \<and> (sessions_wf st \<longrightarrow> sessions_wf (ipc_step B (OpCancel wid s) st))"
proof -
  obtain r st' where e: "cancelRequestToPage wid s st = (r, st')"
    by (cases "cancelRequestToPage wid s st")
  then have st': "ipc_step B (OpCancel wid s) st = st'"
    using v by simp
  note eff = cancelRequestToPage_effect [OF e]
  from eff have n: "nextObj st' = nextObj st" and c: "called_sessions (trace st') = called_sessions (trace st)"
    and o: "\<forall>w. w \<noteq> wid \<longrightarrow> replyCallbacks (heap st' w) = replyCallbacks (heap st w)
                \<and> nextSessionId (heap st' w) = nextSessionId (heap st w)"
    and d: "replyCallbacks (heap st' wid) = AList.delete s (replyCallbacks (heap st wid))"
    and x: "nextSessionId (heap st' wid) = nextSessionId (heap st wid)"
    by simp_all
  have a: "advances st st'"
    by (rule advances_single [OF n o]) (auto simp: d x pending_def delete_keys)
  have "sessions_wf st'" if wf: "sessions_wf st"
  proof (rule wf_step_generic [OF wf a, where ks = "[]" and wid = wid])
    have "table_ok (replyCallbacks (heap st wid)) (nextSessionId (heap st wid))"
      using wf v unfolding sessions_wf_alt by simp
    then have "table_ok (replyCallbacks (heap st' wid)) (nextSessionId (heap st' wid))"
      by (simp add: d x table_ok_delete)
    then show "\<forall>w < nextObj st'. table_ok (replyCallbacks (heap st' w)) (nextSessionId (heap st' w))"
      by (intro tables_single [OF wf n o])
  qed (simp_all add: c)
  with a st' show ?thesis by simp
qed

lemma step_new:
  shows "advances st (ipc_step B (OpNew nm opts) st)
     \<and> (sessions_wf st \<longrightarrow> sessions_wf (ipc_step B (OpNew nm opts) st))"
proof -
  obtain r st' where e: "EditorWindow_new nm opts st = (r, st')"
    by (cases "EditorWindow_new nm opts st")
  then have st': "ipc_step B (OpNew nm opts) st = st'"
    by simp
  note eff = EditorWindow_new_effect [OF e]
  from eff have n: "nextObj st' = Suc (nextObj st)"
    and o: "\<forall>w. w \<noteq> nextObj st \<longrightarrow> heap st' w = heap st w"
    and x: "nextSessionId (heap st' (nextObj st)) = 0"
    and d: "replyCallbacks (heap st' (nextObj st)) = []"
    and c: "called_sessions (trace st') = called_sessions (trace st)"
    by simp_all
  have a: "advances st st'"
    unfolding advances_def using n o by (auto simp: pending_def)
  have "sessions_wf st'" if wf: "sessions_wf st"
  proof (rule wf_step_generic [OF wf a, where ks = "[]" and wid = 0])
    show "\<forall>w < nextObj st'. table_ok (replyCallbacks (heap st' w)) (nextSessionId (heap st' w))"
    proof (intro allI impI)
      fix w assume w: "w < nextObj st'"
      show "table_ok (replyCallbacks (heap st' w)) (nextSessionId (heap st' w))"
      proof (cases "w = nextObj st")
        case True
        then show ?thesis by (simp add: d table_ok_def)
      next
        case False
        with w n have "w < nextObj st" by simp
        then have "table_ok (replyCallbacks (heap st w)) (nextSessionId (heap st w))"
          using wf unfolding sessions_wf_alt by simp
        with False o show ?thesis by simp
      qed
    qed
  qed (simp_all add: c)
  with a st' show ?thesis by simp
qed

subsection \<open>Calls of the callbacks\<close>

lemma quiet_advance: "callbacks_quiet B \<Longrightarrow> callbacks_advance B"
  unfolding callbacks_quiet_def callbacks_advance_def
  by (simp add: advances_same)

lemma returning_quiet: "callbacks_quiet returning_callbacks"
  by (simp add: callbacks_quiet_def returning_callbacks_def)

lemma returning_advance: "callbacks_advance returning_callbacks"
  by (rule quiet_advance [OF returning_quiet])

lemma call_function_advances:
  assumes "callbacks_advance B"
  shows "advances st (snd (call_function B wid s cb args st))"
proof (cases "\<exists>f. cb = JFun f")
  case True
  then obtain f where cb: "cb = JFun f" by blast
  have "advances st (emit [CallReply wid s cb args] st)"
    by (rule advances_same) simp_all
  moreover have "advances (emit [CallReply wid s cb args] st)
      (snd (B f args (emit [CallReply wid s cb args] st)))"
    using assms by (simp add: callbacks_advance_def)
  ultimately show ?thesis
    using cb by (simp add: call_function_def) (rule advances_trans)
next
  case False
  then have "call_function B wid s cb args st = (Throw, st)"
    by (cases cb) (simp_all add: call_function_def)
  then show ?thesis by (simp add: advances_refl)
qed


subsection \<open>Replies\<close>

lemma reply_unfold:
  "EditorWindow_reply B wid s args st =
     (if truthy (replyCallback st wid s) then
        (case call_function B wid s (replyCallback st wid s) args st of
           (Throw, s1) \<Rightarrow> (Throw, s1)
         | (Return u, s1) \<Rightarrow>
             (Return JUndefined,
              set_window wid ((heap s1 wid)\<lparr>replyCallbacks :=
                  AList.delete s (replyCallbacks (heap s1 wid))\<rparr>) s1))
      else (Return JUndefined, st))"
  by (simp add: EditorWindow_reply_def Let_def andThen_def split: prod.splits outcome.splits)

lemma reply_absent:
  "map_of (replyCallbacks (heap st wid)) s = None \<Longrightarrow>
   EditorWindow_reply B wid s args st = (Return JUndefined, st)"
  by (simp add: reply_unfold replyCallback_def)

lemma reply_advances:
  assumes "callbacks_advance B"
  shows "advances st (snd (EditorWindow_reply B wid s args st))"
proof (cases "truthy (replyCallback st wid s)")
  case False
  then show ?thesis by (simp add: reply_unfold advances_refl)
next
  case True
  obtain r s1 where c: "call_function B wid s (replyCallback st wid s) args st = (r, s1)"
    by (cases "call_function B wid s (replyCallback st wid s) args st")
  have a: "advances st s1"
    using call_function_advances [OF assms, of st wid s "replyCallback st wid s" args] c by simp
  show ?thesis
  proof (cases r)
    case Throw
    then show ?thesis using True c a by (simp add: reply_unfold)
  next
    case (Return u)
    have "advances st
        (set_window wid ((heap s1 wid)\<lparr>replyCallbacks :=
            AList.delete s (replyCallbacks (heap s1 wid))\<rparr>) s1)"
      by (rule advances_trans [OF a advances_delete])
    then show ?thesis using True c Return by (simp add: reply_unfold)
  qed
qed


lemma step_reply_advances:
  assumes "callbacks_advance B"
  shows "advances st (ipc_step B (OpReply wid s args) st)"
  using reply_advances [OF assms, of st wid s args] by (simp add: advances_refl)


subsection \<open>The handler of closed\<close>

lemma on_closed_unfold:
  "on_closed B wid st =
     (case closed_loop B wid (sort (pending st wid)) (Panel_onWindowClosed wid st) of
        (Throw, s2) \<Rightarrow> (Throw, s2)
      | (Return u, s2) \<Rightarrow> (Return (), closed_tail wid s2))"
  by (simp add: on_closed_def closed_tail_def andThen_def Let_def pending_def
      Panel_onWindowClosed_def split: prod.splits outcome.splits)

lemma closed_tail_fields:
  "nextObj (closed_tail wid s) = nextObj s"
  "heap (closed_tail wid s) = (heap s)(wid := (heap s wid)\<lparr>replyCallbacks := [], nativeWin := None\<rparr>)"
  by (simp_all add: closed_tail_def Let_def Window_dispose_def removeWindow_def)


lemma closed_tail_advances: "advances s (closed_tail wid s)"
  by (rule advances_single [where wid = wid]) (simp_all add: closed_tail_fields pending_def)

lemma closed_loop_advances:
  assumes "callbacks_advance B"
  shows "advances st (snd (closed_loop B wid ks st))"
proof (induction ks arbitrary: st)
  case Nil
  show ?case by (simp add: advances_refl)
next
  case (Cons k ks)
  show ?case
  proof (cases "truthy (replyCallback st wid k)")
    case False
    then show ?thesis using Cons.IH [of st] by simp
  next
    case True
    obtain r s1 where c: "call_function B wid k (replyCallback st wid k) [] st = (r, s1)"
      by (cases "call_function B wid k (replyCallback st wid k) [] st")
    have a: "advances st s1"
      using call_function_advances [OF assms, of st wid k "replyCallback st wid k" "[]"] c by simp
    show ?thesis
    proof (cases r)
      case Throw
      then show ?thesis using True c a by simp
    next
      case (Return u)
      have "advances st (snd (closed_loop B wid ks s1))"
        by (rule advances_trans [OF a Cons.IH])
      then show ?thesis using True c Return by simp
    qed
  qed
qed

lemma on_closed_advances:
  assumes "callbacks_advance B"
  shows "advances st (snd (on_closed B wid st))"
proof -
  let ?s1 = "Panel_onWindowClosed wid st"
  have a1: "advances st ?s1"
    by (rule advances_same) (simp_all add: Panel_onWindowClosed_def)
  obtain r s2 where c: "closed_loop B wid (sort (pending st wid)) ?s1 = (r, s2)"
    by (cases "closed_loop B wid (sort (pending st wid)) ?s1")
  have a2: "advances ?s1 s2"
    using closed_loop_advances [OF assms, of ?s1 wid "sort (pending st wid)"] c by simp
  show ?thesis
  proof (cases r)
    case Throw
    then show ?thesis
      using c advances_trans [OF a1 a2] by (simp add: on_closed_unfold)
  next
    case (Return u)
    have "advances st (closed_tail wid s2)"
      by (rule advances_trans [OF advances_trans [OF a1 a2] closed_tail_advances])
    then show ?thesis
      using c Return by (simp add: on_closed_unfold)
  qed
qed



lemma step_closed_advances:
  assumes "callbacks_advance B"
  shows "advances st (ipc_step B (OpClosed wid) st)"
  using on_closed_advances [OF assms, of st wid] by (simp add: advances_refl)


subsection \<open>Runs\<close>

lemma ipc_step_advances:
  assumes "callbacks_advance B"
  shows "advances st (ipc_step B x st)"
proof (cases x)
  case (OpNew nm opts)
  then show ?thesis using step_new by simp
next
  case (OpSendRequest wid channel args)
  then show ?thesis using step_send [of wid st] by (cases "wid < nextObj st") (simp_all add: advances_refl)
next
  case (OpCancel wid s)
  then show ?thesis using step_cancel [of wid st] by (cases "wid < nextObj st") (simp_all add: advances_refl)
next
  case (OpReply wid s args)
  then show ?thesis using step_reply_advances [OF assms] by simp
next
  case (OpClosed wid)
  then show ?thesis using step_closed_advances [OF assms] by simp
qed


lemma ipc_run_advances:
  assumes "callbacks_advance B"
  shows "advances st (ipc_run B xs st)"
proof (induction xs arbitrary: st)
  case Nil
  show ?case by (simp add: advances_refl)
next
  case (Cons x xs)
  show ?case
    using advances_trans [OF ipc_step_advances [OF assms] Cons.IH] by simp
qed


text \<open>Before any window exists the bookkeeping is in order.\<close>

lemma sessions_wf_start: "nextObj st = 0 \<Longrightarrow> trace st = [] \<Longrightarrow> sessions_wf st"
  by (simp add: sessions_wf_def called_sessions_def)

lemma retired_stays:
  assumes "callbacks_advance B"
    and "wid < nextObj st" and "s < nextSessionId (heap st wid)" and "s \<notin> set (pending st wid)"
  shows "s \<notin> set (pending (ipc_run B xs st) wid)"
proof
  assume "s \<in> set (pending (ipc_run B xs st) wid)"
  moreover have "\<forall>k \<in> set (pending (ipc_run B xs st) wid).
      k \<in> set (pending st wid) \<or> nextSessionId (heap st wid) \<le> k"
    using ipc_run_advances [OF assms(1), of st xs] assms(2) by (simp add: advances_def)
  ultimately have "s \<in> set (pending st wid) \<or> nextSessionId (heap st wid) \<le> s"
    by blast
  with assms show False by simp
qed

subsection \<open>The example run\<close>

lemmas example_defs = example_pending_editor_def example_requests_def example_replies_def example_editor_def
  example_native_def blank_window_def sendRequestToPage_def sendToPage_def andThen_def Let_def
  emit_def set_window_def

lemma example_pending_editor_state:
  "example_pending_editor =
     example_editor\<lparr>heap := (heap example_editor)(0 := (heap example_editor 0)
         \<lparr>nextSessionId := 2, replyCallbacks := [(0, JFun 7), (1, JFun 8)]\<rparr>),
       trace := [WebContentsSend 0 ''editor:sendreq2page'' [JStr ''query'', JNum 0, JArr [JNum 1]],
                 WebContentsSend 0 ''editor:sendreq2page'' [JStr ''query'', JNum 1, JArr []]]\<rparr>"
  by (simp add: example_defs numeral_2_eq_2)


lemma example_pending_editor_fields:
  "nextObj example_pending_editor = 1"
  "replyCallbacks (heap example_pending_editor 0) = [(0, JFun 7), (1, JFun 8)]"
  "nextSessionId (heap example_pending_editor 0) = 2"
  "nativeWin (heap example_pending_editor 0) = Some example_native"
  "trace example_pending_editor =
     [WebContentsSend 0 ''editor:sendreq2page'' [JStr ''query'', JNum 0, JArr [JNum 1]],
      WebContentsSend 0 ''editor:sendreq2page'' [JStr ''query'', JNum 1, JArr []]]"
  by (simp_all add: example_pending_editor_state example_editor_def)

lemmas run_defs = example_replies_def reply_unfold replyCallback_def call_function_def
  on_closed_unfold closed_tail_def Panel_onWindowClosed_def pending_def isMainWindow_def
  removeWindow_def Window_dispose_def AList.delete_eq Let_def

lemma example_closed_editor_fields:
  "nextObj example_closed_editor = 1"
  "replyCallbacks (heap example_closed_editor 0) = []"
  "nextSessionId (heap example_closed_editor 0) = 2"
  "nativeWin (heap example_closed_editor 0) = None"
  "trace example_closed_editor =
     [WebContentsSend 0 ''editor:sendreq2page'' [JStr ''query'', JNum 0, JArr [JNum 1]],
      WebContentsSend 0 ''editor:sendreq2page'' [JStr ''query'', JNum 1, JArr []],
      CallReply 0 0 (JFun 7) [JStr ''ok''],
      CallReply 0 1 (JFun 8) []]"
  by (simp_all add: example_closed_editor_def example_pending_editor_state example_editor_def
      run_defs returning_callbacks_def)

lemma example_allocated:
  "ipc_allocated returning_callbacks 0 (example_requests @ example_replies) example_editor = [0, 1]"
  by (simp add: example_defs run_defs returning_callbacks_def)

lemma throwing_advance: "callbacks_advance throwing_callbacks"
  by (simp add: callbacks_advance_def throwing_callbacks_def advances_refl)




lemma step_allocated_cases:
  assumes "wid < nextObj st"
  shows "step_allocated wid x st = []
     \<or> (step_allocated wid x st = [nextSessionId (heap st wid)]
         \<and> nextSessionId (heap (ipc_step B x st) wid) = Suc (nextSessionId (heap st wid)))"
proof (cases x)
  case (OpSendRequest w channel args)
  show ?thesis
  proof (cases "w = wid")
    case True
    show ?thesis
    proof (cases "typeof channel \<noteq> ''string'' \<or> args = [] \<or> typeof (last args) \<noteq> ''function''")
      case True
      then have "fst (sendRequestToPage wid channel args st) = Return JNull"
        by (auto simp: sendRequestToPage_def)
      then show ?thesis using OpSendRequest \<open>w = wid\<close> by simp
    next
      case False
      then have "nextSessionId (heap (snd (sendRequestToPage wid channel args st)) wid)
                   = Suc (nextSessionId (heap st wid))
                 \<and> (fst (sendRequestToPage wid channel args st) = Throw
                     \<or> fst (sendRequestToPage wid channel args st)
                         = Return (JNum (int (nextSessionId (heap st wid)))))"
        by (auto simp: sendRequestToPage_def sendToPage_def andThen_def Let_def
            split: option.splits)
      then show ?thesis using OpSendRequest \<open>w = wid\<close> assms by auto
    qed
  next
    case False
    then show ?thesis using OpSendRequest by simp
  qed
qed simp_all

lemma ipc_allocated_sorted:
  assumes ad: "callbacks_advance B"
  shows "sorted_wrt (<) (ipc_allocated B wid xs st)
   \<and> (wid < nextObj st \<longrightarrow> (\<forall>i \<in> set (ipc_allocated B wid xs st). nextSessionId (heap st wid) \<le> i))"
proof (induction xs arbitrary: st)
  case Nil
  show ?case by simp
next
  case (Cons x xs)
  let ?st1 = "ipc_step B x st"
  note IH = Cons.IH [of ?st1]
  have adv: "advances st ?st1" by (rule ipc_step_advances [OF ad])
  show ?case
  proof (cases "wid < nextObj st")
    case True
    then have v1: "wid < nextObj ?st1" and le: "nextSessionId (heap st wid) \<le> nextSessionId (heap ?st1 wid)"
      using adv by (auto simp: advances_def)
    from IH v1 have rest: "\<forall>i \<in> set (ipc_allocated B wid xs ?st1). nextSessionId (heap ?st1 wid) \<le> i"
      and srt: "sorted_wrt (<) (ipc_allocated B wid xs ?st1)"
      by simp_all
    from step_allocated_cases [OF True, of x B] show ?thesis
    proof
      assume "step_allocated wid x st = []"
      then show ?thesis using rest srt le True by fastforce
    next
      assume "step_allocated wid x st = [nextSessionId (heap st wid)]
         \<and> nextSessionId (heap (ipc_step B x st) wid) = Suc (nextSessionId (heap st wid))"
      then show ?thesis using rest srt True by fastforce
    qed
  next
    case False
    then have "step_allocated wid x st = []"
      by (cases x) auto
    then show ?thesis using IH False by simp
  qed
qed

text \<open>
  C3. With a string channel and a function as last argument, on a window whose native
  window is there, \<open>sendRequestToPage\<close> returns the window's counter as session id,
  stores the function under it and steps the counter. On a window that was disposed the
  same call stores the function and steps the counter, and then throws: no session id
  is returned and nothing is added to the trace. In every other case it returns \<open>null\<close>
  and changes nothing but the trace, which gets one error. Along any run with callbacks
  that advance, the session ids a window returns are strictly increasing, and none is
  below the counter the window had at the start of the run.
\<close>

theorem sendRequestToPage_sessions:
  "(typeof channel = ''string'' \<and> args \<noteq> [] \<and> typeof (last args) = ''function''
      \<and> nativeWin (heap st wid) = Some nw \<longrightarrow>
      (\<exists>st'. sendRequestToPage wid channel args st
                = (Return (JNum (int (nextSessionId (heap st wid)))), st')
         \<and> map_of (replyCallbacks (heap st' wid)) (nextSessionId (heap st wid)) = Some (last args)
         \<and> nextSessionId (heap st' wid) = Suc (nextSessionId (heap st wid))))
   \<and> (typeof channel = ''string'' \<and> args \<noteq> [] \<and> typeof (last args) = ''function''
      \<and> nativeWin (heap st wid) = None \<longrightarrow>
      (\<exists>st'. sendRequestToPage wid channel args st = (Throw, st')
         \<and> map_of (replyCallbacks (heap st' wid)) (nextSessionId (heap st wid)) = Some (last args)
         \<and> nextSessionId (heap st' wid) = Suc (nextSessionId (heap st wid))
         \<and> trace st' = trace st))
   \<and> (\<not> (typeof channel = ''string'' \<and> args \<noteq> [] \<and> typeof (last args) = ''function'') \<longrightarrow>
      (\<exists>msg. sendRequestToPage wid channel args st
                = (Return JNull, st\<lparr>trace := trace st @ [EditorError msg]\<rparr>)))
   \<and> (callbacks_advance B \<longrightarrow> sorted_wrt (<) (ipc_allocated B wid xs st))
   \<and> (callbacks_advance B \<and> wid < nextObj st \<longrightarrow>
        (\<forall>i \<in> set (ipc_allocated B wid xs st). nextSessionId (heap st wid) \<le> i))"
proof (intro conjI impI)
  assume h: "typeof channel = ''string'' \<and> args \<noteq> [] \<and> typeof (last args) = ''function''
      \<and> nativeWin (heap st wid) = Some nw"
  then show "\<exists>st'. sendRequestToPage wid channel args st
                = (Return (JNum (int (nextSessionId (heap st wid)))), st')
         \<and> map_of (replyCallbacks (heap st' wid)) (nextSessionId (heap st wid)) = Some (last args)
         \<and> nextSessionId (heap st' wid) = Suc (nextSessionId (heap st wid))"
    by (simp add: sendRequestToPage_def sendToPage_def andThen_def Let_def update_conv')
next
  assume h: "typeof channel = ''string'' \<and> args \<noteq> [] \<and> typeof (last args) = ''function''
      \<and> nativeWin (heap st wid) = None"
  then show "\<exists>st'. sendRequestToPage wid channel args st = (Throw, st')
         \<and> map_of (replyCallbacks (heap st' wid)) (nextSessionId (heap st wid)) = Some (last args)
         \<and> nextSessionId (heap st' wid) = Suc (nextSessionId (heap st wid))
         \<and> trace st' = trace st"
    by (simp add: sendRequestToPage_def sendToPage_def andThen_def Let_def update_conv')
next
  assume "\<not> (typeof channel = ''string'' \<and> args \<noteq> [] \<and> typeof (last args) = ''function'')"
  then show "\<exists>msg. sendRequestToPage wid channel args st
                = (Return JNull, st\<lparr>trace := trace st @ [EditorError msg]\<rparr>)"
    by (auto simp: sendRequestToPage_def emit_def)
next
  assume "callbacks_advance B"
  then show "sorted_wrt (<) (ipc_allocated B wid xs st)"
    using ipc_allocated_sorted by blast
next
  assume "callbacks_advance B \<and> wid < nextObj st"
  then show "\<forall>i \<in> set (ipc_allocated B wid xs st). nextSessionId (heap st wid) \<le> i"
    using ipc_allocated_sorted by blast
qed

theorem sendRequestToPage_sessions_witness:
  "nativeWin (heap example_editor 0) = Some example_native
   \<and> nativeWin (heap example_closed_editor 0) = None
   \<and> callbacks_advance returning_callbacks
   \<and> (\<exists>st'. sendRequestToPage 0 (JStr ''query'') [JNum 1, JFun 7] example_editor = (Return (JNum 0), st')
         \<and> map_of (replyCallbacks (heap st' 0)) 0 = Some (JFun 7)
         \<and> nextSessionId (heap st' 0) = 1)
   \<and> (\<exists>st'. sendRequestToPage 0 (JStr ''query'') [JFun 9] example_closed_editor = (Throw, st')
         \<and> map_of (replyCallbacks (heap st' 0)) 2 = Some (JFun 9)
         \<and> nextSessionId (heap st' 0) = 3
         \<and> trace st' = trace example_closed_editor)
   \<and> (\<exists>msg. sendRequestToPage 0 (JNum 5) [JFun 7] example_editor
                = (Return JNull, example_editor\<lparr>trace := trace example_editor @ [EditorError msg]\<rparr>))
   \<and> ipc_allocated returning_callbacks 0 (example_requests @ example_replies) example_editor = [0, 1]
   \<and> sorted_wrt (<) (ipc_allocated returning_callbacks 0 (example_requests @ example_replies) example_editor)"
proof -
  have n: "nativeWin (heap example_editor 0) = Some example_native"
    "nextSessionId (heap example_editor 0) = 0"
    by (simp_all add: example_editor_def blank_window_def)
  show ?thesis
    using sendRequestToPage_sessions [of "JStr ''query''" "[JNum 1, JFun 7]" example_editor 0
        example_native returning_callbacks "example_requests @ example_replies"]
      sendRequestToPage_sessions [of "JStr ''query''" "[JFun 9]" example_closed_editor 0
        example_native returning_callbacks "example_requests @ example_replies"]
      sendRequestToPage_sessions [of "JNum 5" "[JFun 7]" example_editor 0
        example_native returning_callbacks "example_requests @ example_replies"]
      n example_allocated returning_advance
    by (simp add: example_closed_editor_fields numeral_3_eq_3)
qed

text \<open>
  The claim's "for every window" is too wide. Window 0 of the example, after its
  \<open>closed\<close> event, has no native window; a well-formed request on it throws, so no
  session id is returned, and yet the callback is in the table.
\<close>

theorem sendRequestToPage_sessions_counterexample:
  "typeof (JStr ''query'') = ''string'' \<and> typeof (last [JFun 9]) = ''function''
   \<and> fst (sendRequestToPage 0 (JStr ''query'') [JFun 9] example_closed_editor) = Throw
   \<and> replyCallbacks (heap (snd (sendRequestToPage 0 (JStr ''query'') [JFun 9] example_closed_editor)) 0)
       = [(2, JFun 9)]"
  by (simp add: sendRequestToPage_def sendToPage_def andThen_def Let_def
      example_closed_editor_fields)

text \<open>
  C8. \<open>cancelRequestToPage\<close> deletes the session's entry and calls nothing; a reply for
  that session right after it is ignored, whatever the callbacks do. For a session id
  the window has handed out (below its counter), a reply is also ignored after any run
  that follows the cancellation: with callbacks that return at once, and with any
  callbacks that advance. Cancelling an id that is not in the table leaves the state as
  it is.
\<close>

theorem cancelRequestToPage_drops_session:
  "(\<exists>st'. cancelRequestToPage wid s st = (Return JUndefined, st')
      \<and> trace st' = trace st
      \<and> replyCallbacks (heap st' wid) = AList.delete s (replyCallbacks (heap st wid))
      \<and> map_of (replyCallbacks (heap st' wid)) s = None
      \<and> EditorWindow_reply B wid s args st' = (Return JUndefined, st'))
   \<and> (wid < nextObj st \<and> s < nextSessionId (heap st wid) \<longrightarrow>
        EditorWindow_reply returning_callbacks wid s args
            (ipc_run returning_callbacks xs (snd (cancelRequestToPage wid s st)))
          = (Return JUndefined, ipc_run returning_callbacks xs (snd (cancelRequestToPage wid s st))))
   \<and> (callbacks_advance B \<and> wid < nextObj st \<and> s < nextSessionId (heap st wid) \<longrightarrow>
        EditorWindow_reply B' wid s args (ipc_run B xs (snd (cancelRequestToPage wid s st)))
          = (Return JUndefined, ipc_run B xs (snd (cancelRequestToPage wid s st))))
   \<and> (map_of (replyCallbacks (heap st wid)) s = None \<longrightarrow>
        cancelRequestToPage wid s st = (Return JUndefined, st))"
proof -
  let ?st1 = "snd (cancelRequestToPage wid s st)"
  have run: "EditorWindow_reply C' wid s args (ipc_run C xs ?st1) = (Return JUndefined, ipc_run C xs ?st1)"
    if ad: "callbacks_advance C" and h: "wid < nextObj st \<and> s < nextSessionId (heap st wid)"
    for C C'
  proof -
    have "wid < nextObj ?st1" "s < nextSessionId (heap ?st1 wid)" "s \<notin> set (pending ?st1 wid)"
      using h delete_notin_dom [of s "replyCallbacks (heap st wid)"]
      by (simp_all add: cancelRequestToPage_def Let_def pending_def)
    then have "s \<notin> set (pending (ipc_run C xs ?st1) wid)"
      by (rule retired_stays [OF ad])
    then have "map_of (replyCallbacks (heap (ipc_run C xs ?st1) wid)) s = None"
      by (simp add: pending_def map_of_eq_None_iff)
    then show ?thesis
      by (rule reply_absent)
  qed
  have a: "\<exists>st'. cancelRequestToPage wid s st = (Return JUndefined, st')
      \<and> trace st' = trace st
      \<and> replyCallbacks (heap st' wid) = AList.delete s (replyCallbacks (heap st wid))
      \<and> map_of (replyCallbacks (heap st' wid)) s = None
      \<and> EditorWindow_reply B wid s args st' = (Return JUndefined, st')"
    by (simp add: cancelRequestToPage_def Let_def delete_conv' reply_absent)
  have b: "wid < nextObj st \<and> s < nextSessionId (heap st wid) \<longrightarrow>
        EditorWindow_reply returning_callbacks wid s args
            (ipc_run returning_callbacks xs ?st1)
          = (Return JUndefined, ipc_run returning_callbacks xs ?st1)"
    using run [OF returning_advance] by blast
  have c: "callbacks_advance B \<and> wid < nextObj st \<and> s < nextSessionId (heap st wid) \<longrightarrow>
        EditorWindow_reply B' wid s args (ipc_run B xs ?st1) = (Return JUndefined, ipc_run B xs ?st1)"
    using run by blast
  have d: "map_of (replyCallbacks (heap st wid)) s = None \<longrightarrow>
        cancelRequestToPage wid s st = (Return JUndefined, st)"
  proof
    assume "map_of (replyCallbacks (heap st wid)) s = None"
    then have "AList.delete s (replyCallbacks (heap st wid)) = replyCallbacks (heap st wid)"
      by (simp add: map_of_eq_None_iff)
    then show "cancelRequestToPage wid s st = (Return JUndefined, st)"
      by (simp add: cancelRequestToPage_def Let_def set_window_def)
  qed
  from a b c d show ?thesis by (intro conjI)
qed

theorem cancelRequestToPage_drops_session_witness:
  "0 < nextObj example_pending_editor
   \<and> 1 < nextSessionId (heap example_pending_editor 0)
   \<and> callbacks_advance throwing_callbacks
   \<and> map_of (replyCallbacks (heap example_pending_editor 0)) 1 = Some (JFun 8)
   \<and> trace (snd (cancelRequestToPage 0 1 example_pending_editor)) = trace example_pending_editor
   \<and> EditorWindow_reply returning_callbacks 0 1 [JStr ''late'']
         (ipc_run returning_callbacks example_replies (snd (cancelRequestToPage 0 1 example_pending_editor)))
       = (Return JUndefined,
          ipc_run returning_callbacks example_replies (snd (cancelRequestToPage 0 1 example_pending_editor)))
   \<and> EditorWindow_reply returning_callbacks 0 1 [JStr ''late'']
         (ipc_run throwing_callbacks example_replies (snd (cancelRequestToPage 0 1 example_pending_editor)))
       = (Return JUndefined,
          ipc_run throwing_callbacks example_replies (snd (cancelRequestToPage 0 1 example_pending_editor)))
   \<and> map_of (replyCallbacks (heap example_pending_editor 0)) 5 = None
   \<and> cancelRequestToPage 0 5 example_pending_editor = (Return JUndefined, example_pending_editor)"
  using cancelRequestToPage_drops_session
      [of 0 1 example_pending_editor throwing_callbacks "[JStr ''late'']" example_replies
          returning_callbacks]
    cancelRequestToPage_drops_session
      [of 0 5 example_pending_editor throwing_callbacks "[JStr ''late'']" example_replies
          returning_callbacks]
    throwing_advance
  by (auto simp: example_pending_editor_fields)

section \<open>The order of package notifications\<close>

lemma load_grows:
  "load n reg p st = Some (r, st') \<Longrightarrow>
      \<exists>new. loaded_packages st' = loaded_packages st @ new \<and> notified st' = notified st @ new"
  and load_dependencies_grows:
  "load_dependencies n reg ds st = Some (r, st') \<Longrightarrow>
      \<exists>new. loaded_packages st' = loaded_packages st @ new \<and> notified st' = notified st @ new"
proof (induction n reg p st and n reg ds st arbitrary: r st' and r st' rule: load_load_dependencies.induct)
  case (1 reg p st)
  then show ?case by simp
next
  case (2 n reg p st)
  note a = "2.prems"
  show ?case
  proof (cases "p \<in> set (loaded_packages st)")
    case True
    with a show ?thesis by simp
  next
    case False
    show ?thesis
    proof (cases "map_of reg p")
      case None
      with a False show ?thesis by simp
    next
      case (Some m)
      show ?thesis
      proof (cases "host_present m")
        case False
        with a \<open>p \<notin> set (loaded_packages st)\<close> Some show ?thesis by simp
      next
        case True
        show ?thesis
        proof (cases "load_dependencies n reg (dependencies m) st")
          case None
          with a \<open>p \<notin> set (loaded_packages st)\<close> \<open>map_of reg p = Some m\<close> True show ?thesis by simp
        next
          case (Some res)
          obtain e s1 where res: "res = (e, s1)" by (cases res)
          from "2.IH" [OF \<open>p \<notin> set (loaded_packages st)\<close> \<open>map_of reg p = Some m\<close>, of e s1] True Some res
          obtain new where new: "loaded_packages s1 = loaded_packages st @ new"
            "notified s1 = notified st @ new"
            by auto
          from a \<open>p \<notin> set (loaded_packages st)\<close> \<open>map_of reg p = Some m\<close> True Some res
          have "st' = s1 \<or> st' = s1\<lparr>loaded_packages := loaded_packages s1 @ [p],
                                        notified := notified s1 @ [p]\<rparr>"
            by (auto split: option.splits if_splits)
          with new show ?thesis by auto
        qed
      qed
    qed
  qed
next
  case (3 n reg st)
  then show ?case by simp
next
  case (4 n reg d ds st)
  note a = "4.prems"
  then obtain e s1 where l: "load n reg d st = Some (e, s1)"
    by (cases "load n reg d st") auto
  from "4.IH"(1) [OF l] obtain new1 where n1:
    "loaded_packages s1 = loaded_packages st @ new1" "notified s1 = notified st @ new1"
    by auto
  show ?case
  proof (cases e)
    case (Some err)
    with a l have "st' = s1" by simp
    with n1 show ?thesis by simp
  next
    case None
    with a l have r: "load_dependencies n reg ds s1 = Some (r, st')" by simp
    from "4.IH"(2) [OF l refl None r]
    obtain new2 where "loaded_packages st' = loaded_packages s1 @ new2"
      "notified st' = notified s1 @ new2"
      by auto
    with n1 show ?thesis by simp
  qed
qed

















text \<open>
  No loader could do better on that registry: notifying \<open>dep-01\<close> first would put it
  before its own dependency. Whatever list of notifications without repetitions a load
  of \<open>app\<close> produces, the claimed order fails for \<open>app\<close> or for \<open>dep-01\<close>.
\<close>

lemma set_after_subset: "set (drop 1 (dropWhile P xs)) \<subseteq> set xs"
proof -
  have "set (drop 1 (dropWhile P xs)) \<subseteq> set (dropWhile P xs)"
    by (rule set_drop_subset)
  moreover have "set (dropWhile P xs) \<subseteq> set xs"
    by (auto dest: set_dropWhileD)
  ultimately show ?thesis by blast
qed

lemma comes_before_asym:
  "distinct ns \<Longrightarrow> comes_before ns a b \<Longrightarrow> \<not> comes_before ns b a"
proof (induction ns)
  case Nil
  then show ?case by (simp add: comes_before_def)
next
  case (Cons x xs)
  show ?case
  proof (cases "x = a")
    case True
    with Cons.prems have b: "b \<in> set xs" and a: "a \<notin> set xs"
      by (simp_all add: comes_before_def)
    then have ab: "a \<noteq> b" by auto
    have "a \<notin> set (drop 1 (dropWhile (\<lambda>x. x \<noteq> b) xs))"
      using a set_after_subset [of "\<lambda>x. x \<noteq> b" xs] by auto
    then show ?thesis
      using True ab by (simp add: comes_before_def)
  next
    case False
    with Cons.prems have c: "comes_before xs a b"
      by (simp add: comes_before_def)
    then have bx: "b \<in> set xs"
      using set_after_subset [of "\<lambda>x. x \<noteq> a" xs] by (auto simp: comes_before_def)
    with Cons.prems have "x \<noteq> b" by auto
    moreover from Cons.IH c Cons.prems have "\<not> comes_before xs b a" by simp
    ultimately show ?thesis
      by (simp add: comes_before_def)
  qed
qed

lemma shared_dependency_no_order:
  assumes "distinct ns"
  shows "\<not> list_all (\<lambda>(p, m). claimed_order ns p (dependencies m)) shared_registry"
proof
  assume "list_all (\<lambda>(p, m). claimed_order ns p (dependencies m)) shared_registry"
  then have "comes_before ns ''dep-01'' ''dep-02''" "comes_before ns ''dep-02'' ''dep-01''"
    by (simp_all add: shared_registry_def plain_manifest_def claimed_order_def)
  with comes_before_asym [OF assms] show False by blast
qed

end
